theory Spec2Isabelle
  imports Main
begin

section \<open>The host Date object\<close>

text \<open>
  The server reads the clock with \<^verbatim>\<open>new Date()\<close> and only ever looks at the local calendar
  fields of a Date (\<^verbatim>\<open>getFullYear\<close>, \<^verbatim>\<open>getMonth\<close>, \<^verbatim>\<open>getDate\<close>, \<^verbatim>\<open>getDay\<close>) or rebuilds a
  Date from such fields (\<^verbatim>\<open>new Date(y, m, d)\<close>, \<^verbatim>\<open>setDate\<close>, \<^verbatim>\<open>setMonth\<close>). A Date is therefore
  modelled by the day number of its local time, \<open>Day(LocalTime(t))\<close> in the words of the
  ECMAScript specification: the number of days since 1970-01-01. The time within the day does
  not enter any function of the server, and a local time that a change of the zone offset
  skips is outside the model. The definitions below are the abstract operations of ECMAScript
  (section "Time Values and Time Range"), under their names.
\<close>

type_synonym Date = int

definition DaysInYear :: "int \<Rightarrow> int" where
  "DaysInYear y =
     (if y mod 4 \<noteq> 0 then 365
      else if y mod 100 \<noteq> 0 then 366
      else if y mod 400 \<noteq> 0 then 365
      else 366)"

definition DayFromYear :: "int \<Rightarrow> int" where
  "DayFromYear y =
     365 * (y - 1970) + (y - 1969) div 4 - (y - 1901) div 100 + (y - 1601) div 400"

lemma int_div_succ:
  fixes a n :: int
  assumes "1 < n"
  shows "(a + 1) div n = a div n + (if (a + 1) mod n = 0 then 1 else 0)"
proof -
  have eq: "(a + 1) div n = a div n + (a mod n + 1) div n"
    using assms by (simp add: div_add1_eq [of a 1 n])
  have r: "0 \<le> a mod n" "a mod n < n" using assms by simp_all
  have m: "(a + 1) mod n = (a mod n + 1) mod n" by (simp add: mod_add_left_eq)
  show ?thesis
  proof (cases "a mod n + 1 = n")
    case True
    then show ?thesis using eq m assms by simp
  next
    case False
    with r have lt: "a mod n + 1 < n" by simp
    then have "(a mod n + 1) div n = 0" "(a mod n + 1) mod n = a mod n + 1"
      using r by simp_all
    then show ?thesis using eq m r by simp
  qed
qed

lemma mod4_shift: "((y::int) - 1968) mod 4 = y mod 4"
  using mod_diff_right_eq [of y 1968 4] by simp

lemma mod100_shift: "((y::int) - 1900) mod 100 = y mod 100"
  using mod_diff_right_eq [of y 1900 100] by simp

lemma mod400_shift: "((y::int) - 1600) mod 400 = y mod 400"
  using mod_diff_right_eq [of y 1600 400] by simp

lemma mod100_mod4: "(y::int) mod 100 = 0 \<Longrightarrow> y mod 4 = 0"
proof -
  assume "y mod 100 = 0"
  then have "100 dvd y" by (simp add: mod_eq_0_iff_dvd)
  moreover have "(4::int) dvd 100" by simp
  ultimately have "4 dvd y" by (rule dvd_trans [rotated])
  then show ?thesis by (simp add: mod_eq_0_iff_dvd)
qed

lemma mod400_mod100: "(y::int) mod 400 = 0 \<Longrightarrow> y mod 100 = 0"
proof -
  assume "y mod 400 = 0"
  then have "400 dvd y" by (simp add: mod_eq_0_iff_dvd)
  moreover have "(100::int) dvd 400" by simp
  ultimately have "100 dvd y" by (rule dvd_trans [rotated])
  then show ?thesis by (simp add: mod_eq_0_iff_dvd)
qed

lemma DayFromYear_next: "DayFromYear (y + 1) = DayFromYear y + DaysInYear y"
proof -
  have a: "(y - 1968) div 4 = (y - 1969) div 4 + (if y mod 4 = 0 then 1 else 0)"
    using int_div_succ [of 4 "y - 1969"] mod4_shift [of y] by simp
  have b: "(y - 1900) div 100 = (y - 1901) div 100 + (if y mod 100 = 0 then 1 else 0)"
    using int_div_succ [of 100 "y - 1901"] mod100_shift [of y] by simp
  have c: "(y - 1600) div 400 = (y - 1601) div 400 + (if y mod 400 = 0 then 1 else 0)"
    using int_div_succ [of 400 "y - 1601"] mod400_shift [of y] by simp
  have "DayFromYear (y + 1) =
          365 * (y - 1969) + (y - 1968) div 4 - (y - 1900) div 100 + (y - 1600) div 400"
    by (simp add: DayFromYear_def)
  also have "\<dots> = DayFromYear y + 365 + (if y mod 4 = 0 then 1 else 0)
                  - (if y mod 100 = 0 then 1 else 0) + (if y mod 400 = 0 then 1 else 0)"
    unfolding a b c DayFromYear_def by simp
  also have "\<dots> = DayFromYear y + DaysInYear y"
    using mod100_mod4 [of y] mod400_mod100 [of y] by (auto simp: DaysInYear_def)
  finally show ?thesis .
qed

lemma DaysInYear_cases: "DaysInYear y = 365 \<or> DaysInYear y = 366"
  by (simp add: DaysInYear_def)

lemma DayFromYear_less_next: "DayFromYear y < DayFromYear (y + 1)"
  using DayFromYear_next [of y] DaysInYear_cases [of y] by linarith

lemma DayFromYear_prev_less: "DayFromYear (y - 1) < DayFromYear y"
  using DayFromYear_less_next [of "y - 1"] by simp

text \<open>
  \<open>YearFromTime(t)\<close> is "the largest integer \<open>y\<close> such that \<open>DayFromYear(y) \<le> Day(t)\<close>".
  It is computed by a search from the estimate \<open>1970 + t div 365\<close>, one year down or up at
  a time; lemma \<open>YearFromTime_spec\<close> and \<open>YearFromTime_unique\<close> below show that the search
  returns exactly that integer.
\<close>

function year_search :: "int \<Rightarrow> int \<Rightarrow> int" where
  "year_search y t =
     (if t < DayFromYear y then year_search (y - 1) t
      else if DayFromYear (y + 1) \<le> t then year_search (y + 1) t
      else y)"
  by pat_completeness auto
termination
proof (relation "measure (\<lambda>(y, t). nat (DayFromYear y - t) + nat (t + 1 - DayFromYear (y + 1)))",
    goal_cases)
  case 1
  show ?case by simp
next
  case (2 y t)
  then show ?case
    using DayFromYear_prev_less [of y] DayFromYear_less_next [of y] by (simp add: nat_less_iff)
next
  case (3 y t)
  have "DayFromYear (y + 1) < DayFromYear (y + 1 + 1)" by (rule DayFromYear_less_next)
  with 3 show ?case
    using DayFromYear_less_next [of y] by (simp add: nat_less_iff)
qed

declare year_search.simps [simp del]

definition YearFromTime :: "Date \<Rightarrow> int" where
  "YearFromTime t = year_search (1970 + t div 365) t"

definition InLeapYear :: "Date \<Rightarrow> int" where
  "InLeapYear t = (if DaysInYear (YearFromTime t) = 365 then 0 else 1)"

definition DayWithinYear :: "Date \<Rightarrow> int" where
  "DayWithinYear t = t - DayFromYear (YearFromTime t)"

text \<open>
  The tables of \<open>MonthFromTime\<close> and \<open>DateFromTime\<close>: the day within the year on which month
  \<open>m\<close> (0 = January) starts, and the month a day within the year falls in; \<open>L\<close> is 1 in a
  leap year.
\<close>

definition month_start :: "int \<Rightarrow> int \<Rightarrow> int" where
  "month_start m L =
     (if m = 0 then 0
      else if m = 1 then 31
      else if m = 2 then 59 + L
      else if m = 3 then 90 + L
      else if m = 4 then 120 + L
      else if m = 5 then 151 + L
      else if m = 6 then 181 + L
      else if m = 7 then 212 + L
      else if m = 8 then 243 + L
      else if m = 9 then 273 + L
      else if m = 10 then 304 + L
      else 334 + L)"

definition month_of_day :: "int \<Rightarrow> int \<Rightarrow> int" where
  "month_of_day d L =
     (if d < 31 then 0
      else if d < 59 + L then 1
      else if d < 90 + L then 2
      else if d < 120 + L then 3
      else if d < 151 + L then 4
      else if d < 181 + L then 5
      else if d < 212 + L then 6
      else if d < 243 + L then 7
      else if d < 273 + L then 8
      else if d < 304 + L then 9
      else if d < 334 + L then 10
      else 11)"

definition MonthFromTime :: "Date \<Rightarrow> int" where
  "MonthFromTime t = month_of_day (DayWithinYear t) (InLeapYear t)"

definition DateFromTime :: "Date \<Rightarrow> int" where
  "DateFromTime t = DayWithinYear t - month_start (MonthFromTime t) (InLeapYear t) + 1"

definition WeekDay :: "Date \<Rightarrow> int" where
  "WeekDay t = (t + 4) mod 7"

text \<open>
  \<open>MakeDay(year, month, date)\<close>: \<open>ym = year + floor(month / 12)\<close>, \<open>mn = month modulo 12\<close>,
  the day number of the first of month \<open>mn\<close> of year \<open>ym\<close>, plus \<open>date - 1\<close>. A month or a
  day out of range is carried into the neighbouring months, which is the normalisation of
  JavaScript's Date.
\<close>

definition MakeDay :: "int \<Rightarrow> int \<Rightarrow> int \<Rightarrow> Date" where
  "MakeDay year month date =
     (let ym = year + month div 12;
          mn = month mod 12
      in DayFromYear ym + month_start mn (if DaysInYear ym = 365 then 0 else 1) + date - 1)"

text \<open>
  The methods of Date the server calls. \<^verbatim>\<open>new Date(y, m, d)\<close> maps a year from 0 to 99 to
  1900 + y; \<^verbatim>\<open>setDate\<close> and \<^verbatim>\<open>setMonth\<close> do not. Dates outside the range of a time value
  (100,000,000 days either side of 1970), where JavaScript gives an Invalid Date, are not in
  the model.
\<close>

definition getFullYear :: "Date \<Rightarrow> int" where
  "getFullYear t = YearFromTime t"

definition getMonth :: "Date \<Rightarrow> int" where
  "getMonth t = MonthFromTime t"

definition getDate :: "Date \<Rightarrow> int" where
  "getDate t = DateFromTime t"

definition getDay :: "Date \<Rightarrow> int" where
  "getDay t = WeekDay t"

definition new_Date :: "int \<Rightarrow> int \<Rightarrow> int \<Rightarrow> Date" where
  "new_Date y m d = MakeDay (if 0 \<le> y \<and> y \<le> 99 then 1900 + y else y) m d"

definition setDate :: "Date \<Rightarrow> int \<Rightarrow> Date" where
  "setDate t dt = MakeDay (YearFromTime t) (MonthFromTime t) dt"

definition setMonth :: "Date \<Rightarrow> int \<Rightarrow> Date" where
  "setMonth t m = MakeDay (YearFromTime t) m (DateFromTime t)"

section \<open>Strings\<close>

text \<open>
  \<^verbatim>\<open>String(n)\<close> and the template literal \<^verbatim>\<open>`${year}`\<close> print an integer in decimal, with a
  minus sign when it is negative and without padding. \<^verbatim>\<open>padStart(n, c)\<close> with a pad string
  of one character puts copies of it in front until the length is \<open>n\<close>.
\<close>

fun digits :: "nat \<Rightarrow> string" where
  "digits n =
     (if n < 10 then [''0123456789'' ! n]
      else digits (n div 10) @ [''0123456789'' ! (n mod 10)])"

declare digits.simps [simp del]

definition Number_toString :: "int \<Rightarrow> string" where
  "Number_toString i = (if i < 0 then ''-'' @ digits (nat (- i)) else digits (nat i))"

definition padStart :: "nat \<Rightarrow> char \<Rightarrow> string \<Rightarrow> string" where
  "padStart n c s = replicate (n - length s) c @ s"

text \<open>
  The order of \<^verbatim>\<open><\<close> and \<^verbatim>\<open>>=\<close> on two JavaScript strings, and of SQLite on two TEXT
  values: the first position where the strings differ decides, by the code of the characters
  there; a proper prefix is smaller. \<^verbatim>\<open>a >= b\<close> is \<open>\<not> a < b\<close>.
\<close>

fun string_lt :: "string \<Rightarrow> string \<Rightarrow> bool" where
  "string_lt [] [] = False"
| "string_lt [] (y # ys) = True"
| "string_lt (x # xs) [] = False"
| "string_lt (x # xs) (y # ys) =
     (if (of_char x :: nat) < of_char y then True
      else if (of_char y :: nat) < of_char x then False
      else string_lt xs ys)"

definition string_ge :: "string \<Rightarrow> string \<Rightarrow> bool" where
  "string_ge a b = (\<not> string_lt a b)"

text \<open>The remainder operator \<^verbatim>\<open>%\<close> of JavaScript on integers: the sign is the dividend's.\<close>

definition js_rem :: "int \<Rightarrow> int \<Rightarrow> int" where
  "js_rem a b = (if a < 0 then - ((- a) mod \<bar>b\<bar>) else a mod \<bar>b\<bar>)"

section \<open>Date helpers of the server\<close>

definition COMPLETION_HISTORY_MONTHS :: int where
  "COMPLETION_HISTORY_MONTHS = 3"

definition formatDate :: "Date \<Rightarrow> string" where
  "formatDate date =
     (let year = getFullYear date;
          month = padStart 2 (CHR ''0'') (Number_toString (getMonth date + 1));
          day = padStart 2 (CHR ''0'') (Number_toString (getDate date))
      in Number_toString year @ ''-'' @ month @ ''-'' @ day)"

text \<open>
  Every function that reads the clock takes the reading as the argument \<open>now\<close>: the day
  number of the local date at the moment of the call.
\<close>

definition getTodayDate :: "Date \<Rightarrow> string" where
  "getTodayDate now = formatDate now"

definition getCompletionCutoffDate :: "Date \<Rightarrow> string" where
  "getCompletionCutoffDate now =
     (let date = now;
          date = setMonth date (getMonth date - COMPLETION_HISTORY_MONTHS)
      in formatDate date)"

section \<open>Rows of the three tables\<close>

text \<open>
  The columns \<^verbatim>\<open>created_at\<close> of the three tables and the surrogate key \<^verbatim>\<open>id\<close> of
  \<^verbatim>\<open>task_completions\<close> are left out: the handlers below never read them (the ordering of the
  task list by \<^verbatim>\<open>created_at\<close> is not modelled). \<^verbatim>\<open>frequency\<close> is the text stored in the
  column, \<^verbatim>\<open>reset_day\<close> is a nullable INTEGER. The column \<^verbatim>\<open>id\<close> is the field \<open>tid\<close> of a
  task and \<open>cat_id\<close> of a category; the other columns of categories carry the prefix too.
\<close>

record category =
  cat_id :: nat
  cat_user_id :: string
  cat_name :: string

record task =
  tid :: nat
  user_id :: string
  title :: string
  frequency :: string
  category_id :: nat
  reset_day :: "int option"

record completion =
  task_id :: nat
  completed_date :: string

section \<open>The period of a task and its derived status\<close>

text \<open>The weekly branch of \<^verbatim>\<open>getPeriodStartDate\<close>, up to the Date it formats.\<close>

definition weekly_periodStart :: "int option \<Rightarrow> Date \<Rightarrow> Date" where
  "weekly_periodStart rd today =
     (let resetDay = (case rd of None \<Rightarrow> 0 | Some r \<Rightarrow> r);
          currentDay = getDay today;
          daysSinceReset = js_rem (currentDay - resetDay + 7) 7;
          periodStart = today
      in setDate periodStart (getDate periodStart - daysSinceReset))"

text \<open>The monthly branch of \<^verbatim>\<open>getPeriodStartDate\<close>, up to the Date it formats.\<close>

definition monthly_periodStart :: "int option \<Rightarrow> Date \<Rightarrow> Date" where
  "monthly_periodStart rd today =
     (let resetDay = (case rd of None \<Rightarrow> 1 | Some r \<Rightarrow> r)
      in if getDate today \<ge> resetDay
         then new_Date (getFullYear today) (getMonth today) resetDay
         else new_Date (getFullYear today) (getMonth today - 1) resetDay)"

definition getPeriodStartDate :: "task \<Rightarrow> Date \<Rightarrow> string" where
  "getPeriodStartDate t now =
     (let today = new_Date (getFullYear now) (getMonth now) (getDate now)
      in if frequency t = ''daily'' then formatDate today
         else if frequency t = ''weekly'' then formatDate (weekly_periodStart (reset_day t) today)
         else if frequency t = ''monthly'' then formatDate (monthly_periodStart (reset_day t) today)
         else if frequency t = ''one-time'' then ''1970-01-01''
         else formatDate today)"

definition isTaskCompleted :: "task \<Rightarrow> completion list \<Rightarrow> Date \<Rightarrow> bool" where
  "isTaskCompleted t completions now =
     (let periodStart = getPeriodStartDate t now
      in list_ex (\<lambda>c. task_id c = tid t \<and> string_ge (completed_date c) periodStart) completions)"

definition wasCompletedOnDate :: "nat \<Rightarrow> string \<Rightarrow> completion list \<Rightarrow> bool" where
  "wasCompletedOnDate taskId date completions =
     list_ex (\<lambda>c. task_id c = taskId \<and> completed_date c = date) completions"

section \<open>The store\<close>

text \<open>
  The database is the collaborator sql.js, which is SQLite: the state of a connection is the
  content of the three tables and the setting \<^verbatim>\<open>PRAGMA foreign_keys\<close> of the connection.
  SQLite carries out the action of a foreign key (here \<^verbatim>\<open>ON DELETE CASCADE\<close>) only on a
  connection where that setting is on; a connection is opened with the setting off, and the
  server has no statement that turns it on.
\<close>

record database =
  categories :: "category list"
  tasks :: "task list"
  task_completions :: "completion list"
  foreign_keys :: bool

text \<open>\<^verbatim>\<open>new SQL.Database(fileBuffer)\<close> in \<^verbatim>\<open>initDatabase\<close>: a connection over the content of the file.\<close>

definition SQL_Database :: "category list \<Rightarrow> task list \<Rightarrow> completion list \<Rightarrow> database" where
  "SQL_Database cs ts ls =
     \<lparr>categories = cs, tasks = ts, task_completions = ls, foreign_keys = False\<rparr>"

datatype sql_error = UNIQUE_constraint

datatype conflict_clause = OR_ABORT | OR_IGNORE

text \<open>
  \<^verbatim>\<open>INSERT [OR IGNORE] INTO task_completions (task_id, completed_date) VALUES (?, ?)\<close> under
  the constraint \<^verbatim>\<open>UNIQUE(task_id, completed_date)\<close>: a row that repeats the pair is an
  error, or is skipped with \<^verbatim>\<open>OR IGNORE\<close>. The handlers insert only for a task they have
  just read, so the check of the foreign key on insertion is left out.
\<close>

definition insert_completion ::
    "conflict_clause \<Rightarrow> nat \<Rightarrow> string \<Rightarrow> database \<Rightarrow> sql_error + database" where
  "insert_completion cc i d db =
     (if list_ex (\<lambda>c. task_id c = i \<and> completed_date c = d) (task_completions db)
      then (case cc of OR_IGNORE \<Rightarrow> Inr db | OR_ABORT \<Rightarrow> Inl UNIQUE_constraint)
      else Inr (db\<lparr>task_completions :=
                   task_completions db @ [\<lparr>task_id = i, completed_date = d\<rparr>]\<rparr>))"

text \<open>\<^verbatim>\<open>DELETE FROM task_completions WHERE task_id = ? AND completed_date = ?\<close>\<close>

definition delete_completion :: "nat \<Rightarrow> string \<Rightarrow> database \<Rightarrow> database" where
  "delete_completion i d db =
     db\<lparr>task_completions :=
          filter (\<lambda>c. \<not> (task_id c = i \<and> completed_date c = d)) (task_completions db)\<rparr>"

text \<open>
  \<^verbatim>\<open>DELETE FROM tasks WHERE ...\<close>: the rows that satisfy the condition go; where foreign
  keys are enforced, so do the completions that refer to them.
\<close>

definition delete_tasks :: "(task \<Rightarrow> bool) \<Rightarrow> database \<Rightarrow> database" where
  "delete_tasks P db =
     (let gone = map tid (filter P (tasks db))
      in db\<lparr>tasks := filter (\<lambda>t. \<not> P t) (tasks db),
            task_completions :=
              (if foreign_keys db
               then filter (\<lambda>c. task_id c \<notin> set gone) (task_completions db)
               else task_completions db)\<rparr>)"

text \<open>\<^verbatim>\<open>DELETE FROM categories WHERE ...\<close>, with the cascade to the tasks of the category.\<close>

definition delete_categories :: "(category \<Rightarrow> bool) \<Rightarrow> database \<Rightarrow> database" where
  "delete_categories P db =
     (let gone = map cat_id (filter P (categories db));
          db' = db\<lparr>categories := filter (\<lambda>c. \<not> P c) (categories db)\<rparr>
      in if foreign_keys db then delete_tasks (\<lambda>t. category_id t \<in> set gone) db' else db')"

text \<open>\<^verbatim>\<open>queryOne\<close>: the first row of the result, or null.\<close>

definition queryOne :: "'a list \<Rightarrow> 'a option" where
  "queryOne results = (case results of [] \<Rightarrow> None | r # _ \<Rightarrow> Some r)"

definition cleanupOldCompletions :: "database \<Rightarrow> Date \<Rightarrow> database" where
  "cleanupOldCompletions db now =
     (let cutoffDate = getCompletionCutoffDate now
      in db\<lparr>task_completions :=
              filter (\<lambda>c. \<not> string_lt (completed_date c) cutoffDate) (task_completions db)\<rparr>)"

text \<open>
  \<^verbatim>\<open>initDatabase\<close> on a file of the current schema (the migration of older files is not
  modelled): open the connection, then sweep.
\<close>

definition initDatabase :: "category list \<Rightarrow> task list \<Rightarrow> completion list \<Rightarrow> Date \<Rightarrow> database" where
  "initDatabase cs ts ls now = cleanupOldCompletions (SQL_Database cs ts ls) now"

text \<open>
  \<^verbatim>\<open>getUserCompletions(userId, startDate = null)\<close>: the join of the completions with the
  tasks of the user, from the cutoff on. \<^verbatim>\<open>startDate || ...\<close> takes the default for null and
  for the empty string.
\<close>

definition getUserCompletions :: "database \<Rightarrow> string \<Rightarrow> string option \<Rightarrow> Date \<Rightarrow> completion list" where
  "getUserCompletions db userId startDate now =
     (let cutoff = (case startDate of
                      None \<Rightarrow> getCompletionCutoffDate now
                    | Some s \<Rightarrow> if s = [] then getCompletionCutoffDate now else s)
      in [\<lparr>task_id = task_id tc, completed_date = completed_date tc\<rparr>.
            tc \<leftarrow> task_completions db, t \<leftarrow> tasks db,
            task_id tc = tid t \<and> user_id t = userId \<and> string_ge (completed_date tc) cutoff])"

section \<open>The handlers\<close>

text \<open>
  The responses that are not 200: 404 with the message of the handler, and the 500 that
  Express answers when a statement throws inside a handler.
\<close>

datatype http_error = Not_Found string | Internal_Server_Error sql_error

text \<open>
  \<^verbatim>\<open>GET /api/tasks\<close>: the tasks of the user joined with their categories, each with its
  derived status (\<^verbatim>\<open>completed\<close>, 1 or 0). The map of completion dates that
  \<^verbatim>\<open>include_history\<close> adds to the response is not modelled.
\<close>

definition get_tasks :: "database \<Rightarrow> string \<Rightarrow> nat option \<Rightarrow> Date \<Rightarrow> (task \<times> string \<times> nat) list" where
  "get_tasks db userId category_filter now =
     (let rows = [(t, cat_name c). t \<leftarrow> tasks db, c \<leftarrow> categories db,
                    category_id t = cat_id c \<and> user_id t = userId \<and>
                    (case category_filter of None \<Rightarrow> True | Some k \<Rightarrow> category_id t = k)];
          completions = getUserCompletions db userId None now
      in map (\<lambda>(t, n). (t, n, if isTaskCompleted t completions now then 1 else 0)) rows)"

text \<open>
  \<^verbatim>\<open>PATCH /api/tasks/:id/toggle\<close>: the new state of the store and the response. The ids of
  rows are the positive integers of \<^verbatim>\<open>AUTOINCREMENT\<close>, so the \<^verbatim>\<open>:id\<close> of the path is taken as
  a number.
\<close>

definition toggle :: "database \<Rightarrow> string \<Rightarrow> nat \<Rightarrow> Date \<Rightarrow> database \<times> (http_error + task \<times> nat)" where
  "toggle db userId i now =
     (case queryOne (filter (\<lambda>t. tid t = i \<and> user_id t = userId) (tasks db)) of
        None \<Rightarrow> (db, Inl (Not_Found ''Task not found''))
      | Some t \<Rightarrow>
          let today = getTodayDate now;
              existingCompletion =
                queryOne (filter (\<lambda>c. task_id c = i \<and> completed_date c = today)
                            (task_completions db))
          in case (case existingCompletion of
                     Some _ \<Rightarrow> Inr (delete_completion i today db)
                   | None \<Rightarrow> insert_completion OR_IGNORE i today db) of
               Inl e \<Rightarrow> (db, Inl (Internal_Server_Error e))
             | Inr db' \<Rightarrow>
                 let completions = getUserCompletions db' userId None now;
                     completed = (if isTaskCompleted t completions now then 1 else 0)
                 in (db', Inr (t, completed)))"

text \<open>\<^verbatim>\<open>DELETE /api/categories/:id\<close>\<close>

definition delete_category :: "database \<Rightarrow> string \<Rightarrow> nat \<Rightarrow> database \<times> (http_error + unit)" where
  "delete_category db userId i =
     (case queryOne (filter (\<lambda>c. cat_id c = i \<and> cat_user_id c = userId) (categories db)) of
        None \<Rightarrow> (db, Inl (Not_Found ''Category not found''))
      | Some _ \<Rightarrow>
          let db1 = delete_tasks (\<lambda>t. category_id t = i \<and> user_id t = userId) db;
              db2 = delete_categories (\<lambda>c. cat_id c = i \<and> cat_user_id c = userId) db1
          in (db2, Inr ()))"

text \<open>\<^verbatim>\<open>DELETE /api/tasks/:id\<close>\<close>

definition delete_task :: "database \<Rightarrow> string \<Rightarrow> nat \<Rightarrow> database \<times> (http_error + unit)" where
  "delete_task db userId i =
     (case queryOne (filter (\<lambda>t. tid t = i \<and> user_id t = userId) (tasks db)) of
        None \<Rightarrow> (db, Inl (Not_Found ''Task not found''))
      | Some _ \<Rightarrow> (delete_tasks (\<lambda>t. tid t = i \<and> user_id t = userId) db, Inr ()))"

section \<open>Clock readings and the next period\<close>

text \<open>
  The clock readings the theorems about periods are stated for: the days from 1970-01-01 on.
  (Before the year 100, \<^verbatim>\<open>new Date(y, m, d)\<close> reads the year \<open>y\<close> as 1900 + y, so that
  \<^verbatim>\<open>today\<close> in \<^verbatim>\<open>getPeriodStartDate\<close> is not the day of the clock.)
\<close>

definition on_clock :: "Date \<Rightarrow> bool" where
  "on_clock now \<longleftrightarrow> DayFromYear 1970 \<le> now"

text \<open>
  The start of the period after the one that starts at \<open>p\<close>, for a monthly task: the
  following occurrence of the reset day, in the month after the month of \<open>p\<close>. The server
  has no such function; it is the \<open>nextPeriodStart\<close> of the specification.
\<close>

definition nextPeriodStart :: "Date \<Rightarrow> int \<Rightarrow> Date" where
  "nextPeriodStart p resetDay = new_Date (getFullYear p) (getMonth p + 1) resetDay"

text \<open>
  The number of days of month \<open>m\<close> of year \<open>y\<close> (any integer \<open>m\<close>, counted from January of
  \<open>y\<close>): from its first day to the first day of the month after.
\<close>

definition DaysInMonth :: "int \<Rightarrow> int \<Rightarrow> int" where
  "DaysInMonth y m = MakeDay y (m + 1) 1 - MakeDay y m 1"

section \<open>Example data\<close>

definition example_task :: task where
  "example_task =
     \<lparr>tid = 1, user_id = ''u1'', title = ''Dishes'', frequency = ''daily'', category_id = 1,
      reset_day = None\<rparr>"

definition example_db :: database where
  "example_db =
     SQL_Database [\<lparr>cat_id = 1, cat_user_id = ''u1'', cat_name = ''Chores''\<rparr>] [example_task]
       [\<lparr>task_id = 1, completed_date = ''2024-06-14''\<rparr>,
        \<lparr>task_id = 1, completed_date = ''2024-06-15''\<rparr>]"

definition example_weekly_task :: task where
  "example_weekly_task =
     \<lparr>tid = 2, user_id = ''u1'', title = ''Laundry'', frequency = ''weekly'', category_id = 1,
      reset_day = Some 0\<rparr>"

definition example_monthly_task :: task where
  "example_monthly_task =
     \<lparr>tid = 3, user_id = ''u1'', title = ''Rent'', frequency = ''monthly'', category_id = 1,
      reset_day = Some 20\<rparr>"

definition example_monthly30_task :: task where
  "example_monthly30_task =
     \<lparr>tid = 5, user_id = ''u1'', title = ''Report'', frequency = ''monthly'', category_id = 1,
      reset_day = Some 30\<rparr>"

definition example_monthly30_db :: database where
  "example_monthly30_db =
     SQL_Database [\<lparr>cat_id = 1, cat_user_id = ''u1'', cat_name = ''Chores''\<rparr>]
       [example_monthly30_task] []"

definition example_onetime_task :: task where
  "example_onetime_task =
     \<lparr>tid = 4, user_id = ''u1'', title = ''Passport'', frequency = ''one-time'', category_id = 1,
      reset_day = None\<rparr>"

definition example_onetime_db :: database where
  "example_onetime_db =
     SQL_Database [\<lparr>cat_id = 1, cat_user_id = ''u1'', cat_name = ''Chores''\<rparr>]
       [example_onetime_task] [\<lparr>task_id = 4, completed_date = ''2024-01-10''\<rparr>]"

definition example_sweep_db :: database where
  "example_sweep_db =
     SQL_Database [\<lparr>cat_id = 1, cat_user_id = ''u1'', cat_name = ''Chores''\<rparr>] [example_task]
       [\<lparr>task_id = 1, completed_date = ''2024-03-14''\<rparr>,
        \<lparr>task_id = 1, completed_date = ''2024-03-15''\<rparr>]"

definition example_monthend_db :: database where
  "example_monthend_db =
     SQL_Database [\<lparr>cat_id = 1, cat_user_id = ''u1'', cat_name = ''Chores''\<rparr>] [example_task]
       [\<lparr>task_id = 1, completed_date = ''2024-02-29''\<rparr>,
        \<lparr>task_id = 1, completed_date = ''2024-03-01''\<rparr>,
        \<lparr>task_id = 1, completed_date = ''2024-03-02''\<rparr>]"

section \<open>Facts about the calendar\<close>

lemma year_search_spec:
  "DayFromYear (year_search y t) \<le> t \<and> t < DayFromYear (year_search y t + 1)"
proof (induction y t rule: year_search.induct)
  case (1 y t)
  show ?case
  proof (cases "t < DayFromYear y")
    case True
    with 1 show ?thesis by (subst (1 2) year_search.simps) simp
  next
    case False
    note ge = this
    show ?thesis
    proof (cases "DayFromYear (y + 1) \<le> t")
      case True
      with ge 1 show ?thesis by (subst (1 2) year_search.simps) simp
    next
      case False
      with ge show ?thesis by (subst (1 2) year_search.simps) simp
    qed
  qed
qed

lemma YearFromTime_spec:
  "DayFromYear (YearFromTime t) \<le> t \<and> t < DayFromYear (YearFromTime t + 1)"
  unfolding YearFromTime_def by (rule year_search_spec)

lemma DayFromYear_mono_aux: "DayFromYear a \<le> DayFromYear (a + int n)"
proof (induction n)
  case 0
  show ?case by simp
next
  case (Suc n)
  have lt: "DayFromYear (a + int n) < DayFromYear (a + int n + 1)"
    by (rule DayFromYear_less_next)
  have "a + int (Suc n) = a + int n + 1" by simp
  then have "DayFromYear (a + int (Suc n)) = DayFromYear (a + int n + 1)" by (rule arg_cong)
  with Suc lt show ?case by linarith
qed

lemma DayFromYear_mono: "a \<le> b \<Longrightarrow> DayFromYear a \<le> DayFromYear b"
  using DayFromYear_mono_aux [of a "nat (b - a)"] by simp

lemma YearFromTime_unique:
  assumes "DayFromYear y \<le> t" and "t < DayFromYear (y + 1)"
  shows "YearFromTime t = y"
proof (rule ccontr)
  assume ne: "YearFromTime t \<noteq> y"
  note s = YearFromTime_spec [of t]
  show False
  proof (cases "YearFromTime t < y")
    case True
    then have "DayFromYear (YearFromTime t + 1) \<le> DayFromYear y"
      by (intro DayFromYear_mono) simp
    with s assms show False by simp
  next
    case False
    with ne have "DayFromYear (y + 1) \<le> DayFromYear (YearFromTime t)"
      by (intro DayFromYear_mono) simp
    with s assms show False by simp
  qed
qed

lemma DayWithinYear_range:
  "0 \<le> DayWithinYear t \<and> DayWithinYear t < DaysInYear (YearFromTime t)"
  using YearFromTime_spec [of t] DayFromYear_next [of "YearFromTime t"]
  by (simp add: DayWithinYear_def)

lemma MonthFromTime_range: "0 \<le> MonthFromTime t \<and> MonthFromTime t \<le> 11"
  by (simp add: MonthFromTime_def month_of_day_def)

text \<open>Rebuilding a Date from its own year, month and day of the month gives the Date back.\<close>

lemma MakeDay_fields_of:
  "MakeDay (YearFromTime t) (MonthFromTime t) (DateFromTime t + k) = t + k"
proof -
  have "MonthFromTime t div 12 = 0" "MonthFromTime t mod 12 = MonthFromTime t"
    using MonthFromTime_range [of t] by simp_all
  then show ?thesis
    by (simp add: MakeDay_def DateFromTime_def DayWithinYear_def InLeapYear_def)
qed

lemma month_cases:
  fixes mn :: int
  assumes "0 \<le> mn" "mn \<le> 11"
  shows "mn = 0 \<or> mn = 1 \<or> mn = 2 \<or> mn = 3 \<or> mn = 4 \<or> mn = 5 \<or> mn = 6
         \<or> mn = 7 \<or> mn = 8 \<or> mn = 9 \<or> mn = 10 \<or> mn = 11"
  using assms by presburger

lemma month_of_day_start_each:
  assumes "0 \<le> L" "L \<le> 1" "1 \<le> d" "d \<le> 28"
  shows "month_of_day (month_start 0 L + d - 1) L = 0"
    and "month_of_day (month_start 1 L + d - 1) L = 1"
    and "month_of_day (month_start 2 L + d - 1) L = 2"
    and "month_of_day (month_start 3 L + d - 1) L = 3"
    and "month_of_day (month_start 4 L + d - 1) L = 4"
    and "month_of_day (month_start 5 L + d - 1) L = 5"
    and "month_of_day (month_start 6 L + d - 1) L = 6"
    and "month_of_day (month_start 7 L + d - 1) L = 7"
    and "month_of_day (month_start 8 L + d - 1) L = 8"
    and "month_of_day (month_start 9 L + d - 1) L = 9"
    and "month_of_day (month_start 10 L + d - 1) L = 10"
    and "month_of_day (month_start 11 L + d - 1) L = 11"
  using assms by (simp_all add: month_of_day_def month_start_def)

lemma month_of_day_start:
  assumes "0 \<le> mn" "mn \<le> 11" "0 \<le> L" "L \<le> 1" "1 \<le> d" "d \<le> 28"
  shows "month_of_day (month_start mn L + d - 1) L = mn"
  using month_cases [OF assms(1,2)] month_of_day_start_each [OF assms(3,4,5,6)]
  by (elim disjE) simp_all

lemma month_start_bounds:
  assumes "0 \<le> mn" "mn \<le> 11" "0 \<le> L" "L \<le> 1"
  shows "0 \<le> month_start mn L \<and> month_start mn L \<le> 334 + L"
  using assms by (simp add: month_start_def)

lemma month_of_day_lower:
  assumes "0 \<le> L" "L \<le> 1" "0 \<le> d" "d < 365 + L"
  shows "month_start (month_of_day d L) L \<le> d"
  using assms by (simp add: month_of_day_def month_start_def)

lemma month_of_day_upper:
  assumes "0 \<le> L" "L \<le> 1" "0 \<le> d" "d < 365 + L" "month_of_day d L < 11"
  shows "d < month_start (month_of_day d L + 1) L"
  using assms by (simp add: month_of_day_def month_start_def split: if_splits)

text \<open>
  A day of the month from 1 to 28 exists in every month, so \<open>MakeDay\<close> carries nothing and
  the fields of the result are the normalised month and that day.
\<close>

lemma MakeDay_fields:
  assumes "1 \<le> d" "d \<le> 28"
  shows "YearFromTime (MakeDay y m d) = y + m div 12"
    and "MonthFromTime (MakeDay y m d) = m mod 12"
    and "DateFromTime (MakeDay y m d) = d"
proof -
  define ym where "ym = y + m div 12"
  define mn where "mn = m mod 12"
  define L :: int where "L = (if DaysInYear ym = 365 then 0 else 1)"
  define t where "t = MakeDay y m d"
  have mn: "0 \<le> mn" "mn \<le> 11" by (simp_all add: mn_def)
  have L: "0 \<le> L" "L \<le> 1" by (simp_all add: L_def)
  have diy: "DaysInYear ym = 365 + L"
    using DaysInYear_cases [of ym] by (auto simp: L_def)
  have t: "t = DayFromYear ym + (month_start mn L + d - 1)"
    by (simp add: t_def MakeDay_def ym_def mn_def L_def)
  have b: "0 \<le> month_start mn L + d - 1" "month_start mn L + d - 1 < DaysInYear ym"
    using month_start_bounds [OF mn L] assms diy by simp_all
  have yr: "YearFromTime t = ym"
    using b DayFromYear_next [of ym] by (intro YearFromTime_unique) (simp_all add: t)
  have leap: "InLeapYear t = L" by (simp add: InLeapYear_def yr L_def)
  have dwy: "DayWithinYear t = month_start mn L + d - 1"
    unfolding DayWithinYear_def yr by (simp add: t)
  have mo: "MonthFromTime t = mn"
    unfolding MonthFromTime_def leap dwy by (rule month_of_day_start [OF mn L assms])
  have da: "DateFromTime t = d" by (simp add: DateFromTime_def mo leap dwy)
  show "YearFromTime (MakeDay y m d) = y + m div 12"
    and "MonthFromTime (MakeDay y m d) = m mod 12"
    and "DateFromTime (MakeDay y m d) = d"
    using yr mo da by (simp_all add: t_def ym_def mn_def)
qed

text \<open>The first day of a month, and the first day of the month after it.\<close>

lemma MakeDay_day: "MakeDay y m (d + k) = MakeDay y m d + k"
  by (simp add: MakeDay_def Let_def)

lemma DateFromTime_month_end:
  "1 \<le> DateFromTime t \<and> MakeDay (YearFromTime t) (MonthFromTime t + 1) 1 > t"
proof -
  define y where "y = YearFromTime t"
  define L where "L = InLeapYear t"
  define d where "d = DayWithinYear t"
  have L: "0 \<le> L" "L \<le> 1" by (simp_all add: L_def InLeapYear_def)
  have diy: "DaysInYear y = 365 + L"
    using DaysInYear_cases [of y] by (auto simp: L_def InLeapYear_def y_def)
  have d: "0 \<le> d" "d < 365 + L"
    using DayWithinYear_range [of t] diy by (simp_all add: d_def y_def)
  have t: "t = DayFromYear y + d" by (simp add: d_def DayWithinYear_def y_def)
  have lo: "month_start (month_of_day d L) L \<le> d"
    by (rule month_of_day_lower [OF L d])
  have hi: "month_of_day d L < 11 \<Longrightarrow> d < month_start (month_of_day d L + 1) L"
    by (rule month_of_day_upper [OF L d])
  have r: "0 \<le> month_of_day d L" "month_of_day d L \<le> 11"
    by (simp_all add: month_of_day_def)
  have one: "1 \<le> DateFromTime t"
    using lo by (simp add: DateFromTime_def MonthFromTime_def d_def L_def)
  have nxt: "t < MakeDay y (month_of_day d L + 1) 1"
  proof (cases "month_of_day d L = 11")
    case True
    have "MakeDay y 12 1 = DayFromYear (y + 1)" by (simp add: MakeDay_def month_start_def)
    with True d diy DayFromYear_next [of y] show ?thesis by (simp add: t)
  next
    case False
    with r have lt: "month_of_day d L < 11" by simp
    then have "(month_of_day d L + 1) div 12 = 0" "(month_of_day d L + 1) mod 12 = month_of_day d L + 1"
      using r by simp_all
    moreover have "L = (if DaysInYear y = 365 then 0 else 1)"
      by (simp add: L_def InLeapYear_def y_def)
    ultimately have "MakeDay y (month_of_day d L + 1) 1 =
        DayFromYear y + month_start (month_of_day d L + 1) L"
      by (simp add: MakeDay_def)
    with hi [OF lt] show ?thesis by (simp add: t)
  qed
  show ?thesis using one nxt by (simp add: MonthFromTime_def y_def d_def L_def)
qed

lemma on_clock_year:
  assumes "on_clock now"
  shows "1970 \<le> YearFromTime now"
proof (rule ccontr)
  assume "\<not> 1970 \<le> YearFromTime now"
  then have "DayFromYear (YearFromTime now + 1) \<le> DayFromYear 1970"
    by (intro DayFromYear_mono) simp
  with YearFromTime_spec [of now] assms show False by (simp add: on_clock_def)
qed

lemma today_is_now:
  assumes "on_clock now"
  shows "new_Date (getFullYear now) (getMonth now) (getDate now) = now"
proof -
  have "\<not> YearFromTime now \<le> 99"
    using on_clock_year [OF assms] by simp
  then show ?thesis
    using MakeDay_fields_of [of now 0]
    by (simp add: new_Date_def getFullYear_def getMonth_def getDate_def)
qed

lemma setDate_shift: "setDate t (getDate t + k) = t + k"
  by (simp add: setDate_def getDate_def MakeDay_fields_of)

lemma week_arith:
  fixes a R :: int
  assumes "0 \<le> R" "R \<le> 6"
  shows "(a - (a mod 7 - R + 7) mod 7) mod 7 = R"
proof -
  define c where "c = a mod 7"
  define q where "q = a div 7"
  have a: "a = 7 * q + c" by (simp add: c_def q_def)
  have c: "0 \<le> c" "c \<le> 6" by (simp_all add: c_def)
  show ?thesis
  proof (cases "R \<le> c")
    case True
    with c assms have e1: "(c - R + 7) mod 7 = c - R" by simp
    have e2: "a - (c - R) = 7 * q + R" by (simp add: a)
    have e3: "(7 * q + R) mod 7 = R" using assms by simp
    show ?thesis by (simp only: c_def [symmetric] e1 e2 e3)
  next
    case False
    with c assms have "0 \<le> c - R + 7" "c - R + 7 < 7" by simp_all
    then have e1: "(c - R + 7) mod 7 = c - R + 7" by (rule mod_pos_pos_trivial)
    have e2: "a - (c - R + 7) = 7 * (q - 1) + R" by (simp add: a)
    have "(7 * (q - 1) + R) mod 7 = R mod 7" by (rule mod_mult_self4)
    also have "\<dots> = R" using assms by simp
    finally have e3: "(7 * (q - 1) + R) mod 7 = R" .
    show ?thesis by (simp only: c_def [symmetric] e1 e2 e3)
  qed
qed

lemma MakeDay_same_month:
  assumes "12 * y + m = 12 * y' + m'"
  shows "MakeDay y m d = MakeDay y' m' d"
proof -
  have a: "y + m div 12 = (12 * y + m) div 12" by simp
  have b: "y' + m' div 12 = (12 * y' + m') div 12" by simp
  have c: "m mod 12 = (12 * y + m) mod 12" by simp
  have d: "m' mod 12 = (12 * y' + m') mod 12" by simp
  show ?thesis unfolding MakeDay_def a b c d assms ..
qed

lemma month_of_day_date_upper:
  assumes "0 \<le> L" "L \<le> 1" "0 \<le> d" "d < 365 + L"
  shows "d - month_start (month_of_day d L) L + 1 \<le> 31"
  using assms by (simp add: month_of_day_def month_start_def)

lemma DateFromTime_range: "1 \<le> DateFromTime t \<and> DateFromTime t \<le> 31"
proof -
  define L where "L = InLeapYear t"
  define d where "d = DayWithinYear t"
  have L: "0 \<le> L" "L \<le> 1" by (simp_all add: L_def InLeapYear_def)
  have diy: "DaysInYear (YearFromTime t) = 365 + L"
    using DaysInYear_cases [of "YearFromTime t"] by (auto simp: L_def InLeapYear_def)
  have d: "0 \<le> d" "d < 365 + L"
    using DayWithinYear_range [of t] diy by (simp_all add: d_def)
  from month_of_day_date_upper [OF L d] DateFromTime_month_end [of t]
  show ?thesis by (simp add: DateFromTime_def MonthFromTime_def d_def L_def)
qed

text \<open>The first day of the month after month \<open>m\<close> of year \<open>y\<close>.\<close>

lemma MakeDay_next_first:
  "MakeDay y (m + 1) 1 =
     (if m mod 12 = 11 then DayFromYear (y + m div 12 + 1)
      else DayFromYear (y + m div 12)
           + month_start (m mod 12 + 1) (if DaysInYear (y + m div 12) = 365 then 0 else 1))"
proof (cases "m mod 12 = 11")
  case True
  then have "(m + 1) mod 12 = 0" using mod_add_left_eq [of m 12 1] by simp
  moreover from this have "(m + 1) div 12 = m div 12 + 1"
    using int_div_succ [of 12 m] by simp
  ultimately show ?thesis using True by (simp add: MakeDay_def month_start_def add.assoc)
next
  case False
  have r: "0 \<le> m mod 12" "m mod 12 < 12" by simp_all
  with False have lt: "m mod 12 + 1 < 12" by simp
  have "(m + 1) mod 12 = (m mod 12 + 1) mod 12" using mod_add_left_eq [of m 12 1] by simp
  also have "\<dots> = m mod 12 + 1" using r lt by simp
  finally have a: "(m + 1) mod 12 = m mod 12 + 1" .
  then have "(m + 1) mod 12 \<noteq> 0" using r by simp
  then have b: "(m + 1) div 12 = m div 12" using int_div_succ [of 12 m] by simp
  show ?thesis using False by (simp add: MakeDay_def a b)
qed

lemma month_of_day_within:
  assumes "0 \<le> mn" "mn \<le> 11" "0 \<le> L" "L \<le> 1"
    and "month_start mn L \<le> d"
    and "d < (if mn = 11 then 365 + L else month_start (mn + 1) L)"
  shows "month_of_day d L = mn"
  using month_cases [OF assms(1,2)] assms(3,4,5,6)
  by (elim disjE) (simp_all add: month_of_day_def month_start_def)

text \<open>
  Every day from the first of a month up to the first of the next has the year and month of
  the first, and counts its day of the month from it.
\<close>

lemma fields_within_month:
  assumes "MakeDay y m 1 \<le> t" and "t < MakeDay y (m + 1) 1"
  shows "YearFromTime t = y + m div 12"
    and "MonthFromTime t = m mod 12"
    and "DateFromTime t = t - MakeDay y m 1 + 1"
proof -
  define ym where "ym = y + m div 12"
  define mn where "mn = m mod 12"
  define L :: int where "L = (if DaysInYear ym = 365 then 0 else 1)"
  have mn: "0 \<le> mn" "mn \<le> 11" by (simp_all add: mn_def)
  have L: "0 \<le> L" "L \<le> 1" by (simp_all add: L_def)
  have diy: "DaysInYear ym = 365 + L"
    using DaysInYear_cases [of ym] by (auto simp: L_def)
  have f: "MakeDay y m 1 = DayFromYear ym + month_start mn L"
    by (simp add: MakeDay_def ym_def mn_def L_def)
  have n: "MakeDay y (m + 1) 1 =
             (if mn = 11 then DayFromYear (ym + 1) else DayFromYear ym + month_start (mn + 1) L)"
    unfolding MakeDay_next_first by (simp add: ym_def mn_def L_def)
  have nxt: "DayFromYear (ym + 1) = DayFromYear ym + 365 + L"
    using DayFromYear_next [of ym] diy by simp
  define d where "d = t - DayFromYear ym"
  have lo: "month_start mn L \<le> d" using assms(1) by (simp add: f d_def)
  have hi: "d < (if mn = 11 then 365 + L else month_start (mn + 1) L)"
    using assms(2) by (simp add: n nxt d_def split: if_splits)
  have d0: "0 \<le> d" using lo month_start_bounds [OF mn L] by simp
  have d1: "d < 365 + L"
  proof (cases "mn = 11")
    case True
    with hi show ?thesis by simp
  next
    case False
    with mn have "0 \<le> mn + 1" "mn + 1 \<le> 11" by simp_all
    from month_start_bounds [OF this L] hi False show ?thesis by simp
  qed
  have yr: "YearFromTime t = ym"
    using d0 d1 nxt by (intro YearFromTime_unique) (simp_all add: d_def)
  have leap: "InLeapYear t = L" by (simp add: InLeapYear_def yr L_def)
  have dwy: "DayWithinYear t = d" unfolding DayWithinYear_def yr by (simp add: d_def)
  have mo: "MonthFromTime t = mn"
    unfolding MonthFromTime_def leap dwy by (rule month_of_day_within [OF mn L lo hi])
  have da: "DateFromTime t = d - month_start mn L + 1"
    by (simp add: DateFromTime_def mo leap dwy)
  show "YearFromTime t = y + m div 12" using yr by (simp add: ym_def)
  show "MonthFromTime t = m mod 12" using mo by (simp add: mn_def)
  show "DateFromTime t = t - MakeDay y m 1 + 1" using da by (simp add: f d_def)
qed

lemma DaysInMonth_range: "28 \<le> DaysInMonth y m \<and> DaysInMonth y m \<le> 31"
proof -
  define ym where "ym = y + m div 12"
  define mn where "mn = m mod 12"
  define L :: int where "L = (if DaysInYear ym = 365 then 0 else 1)"
  have mn: "0 \<le> mn" "mn \<le> 11" by (simp_all add: mn_def)
  have L: "0 \<le> L" "L \<le> 1" by (simp_all add: L_def)
  have diy: "DaysInYear ym = 365 + L"
    using DaysInYear_cases [of ym] by (auto simp: L_def)
  have f: "MakeDay y m 1 = DayFromYear ym + month_start mn L"
    by (simp add: MakeDay_def ym_def mn_def L_def)
  have n: "MakeDay y (m + 1) 1 =
             (if mn = 11 then DayFromYear ym + 365 + L else DayFromYear ym + month_start (mn + 1) L)"
    unfolding MakeDay_next_first using DayFromYear_next [of ym] diy
    by (simp add: ym_def mn_def L_def)
  have "28 \<le> (if mn = 11 then 365 + L else month_start (mn + 1) L) - month_start mn L
      \<and> (if mn = 11 then 365 + L else month_start (mn + 1) L) - month_start mn L \<le> 31"
    using month_cases [OF mn] L by (elim disjE) (simp_all add: month_start_def)
  then show ?thesis by (simp add: DaysInMonth_def f n split: if_splits)
qed

text \<open>
  \<open>MakeDay\<close> with a day of the month that the month has gives a Date with these fields; with
  a day beyond the end of the month it gives the day that many days into the next month.
\<close>

lemma MakeDay_fields_in_month:
  assumes "1 \<le> d" "d \<le> DaysInMonth y m"
  shows "YearFromTime (MakeDay y m d) = y + m div 12"
    and "MonthFromTime (MakeDay y m d) = m mod 12"
    and "DateFromTime (MakeDay y m d) = d"
proof -
  have t: "MakeDay y m d = MakeDay y m 1 + (d - 1)" using MakeDay_day [of y m 1 "d - 1"] by simp
  have lo: "MakeDay y m 1 \<le> MakeDay y m d" using assms(1) by (simp add: t)
  have hi: "MakeDay y m d < MakeDay y (m + 1) 1" using assms(2) by (simp add: t DaysInMonth_def)
  note f = fields_within_month [OF lo hi]
  show "YearFromTime (MakeDay y m d) = y + m div 12" by (rule f(1))
  show "MonthFromTime (MakeDay y m d) = m mod 12" by (rule f(2))
  show "DateFromTime (MakeDay y m d) = d" using f(3) by (simp add: t)
qed

lemma MakeDay_overflow:
  "MakeDay y m d = MakeDay y (m + 1) (d - DaysInMonth y m)"
proof -
  have "MakeDay y m d = MakeDay y m 1 + (d - 1)" using MakeDay_day [of y m 1 "d - 1"] by simp
  moreover have "MakeDay y (m + 1) (d - DaysInMonth y m)
                   = MakeDay y (m + 1) 1 + (d - DaysInMonth y m - 1)"
    using MakeDay_day [of y "m + 1" 1 "d - DaysInMonth y m - 1"] by simp
  ultimately show ?thesis by (simp add: DaysInMonth_def)
qed

section \<open>Facts about the order of strings\<close>

lemma string_lt_irrefl: "\<not> string_lt a a"
  by (induction a) simp_all

lemma string_lt_total: "\<not> string_lt a b \<Longrightarrow> \<not> string_lt b a \<Longrightarrow> a = b"
proof (induction a b rule: string_lt.induct)
  case (4 x xs y ys)
  then have "(of_char x :: nat) = of_char y" by (auto split: if_splits)
  then have "x = y" by simp
  with 4 show ?case by (auto split: if_splits)
qed simp_all

lemma string_lt_trans: "string_lt a b \<Longrightarrow> string_lt b c \<Longrightarrow> string_lt a c"
proof (induction a b arbitrary: c rule: string_lt.induct)
  case (2 y ys)
  then show ?case by (cases c) (simp_all split: if_splits)
next
  case (4 x xs y ys)
  then obtain z zs where c: "c = z # zs" by (cases c) simp_all
  from 4 show ?case unfolding c by (auto split: if_splits)
qed simp_all

lemma string_lt_ge_trans: "string_lt a b \<Longrightarrow> string_ge c b \<Longrightarrow> string_lt a c"
proof (rule ccontr)
  assume ab: "string_lt a b" and cb: "string_ge c b" and n: "\<not> string_lt a c"
  show False
  proof (cases "string_lt c a")
    case True
    then have "string_lt c b" using ab by (rule string_lt_trans)
    with cb show False by (simp add: string_ge_def)
  next
    case False
    with n have "a = c" by (rule string_lt_total)
    with ab cb show False by (simp add: string_ge_def)
  qed
qed

section \<open>Facts about the strings of numbers and dates\<close>

lemma digit_nth_inj:
  assumes "i < 10" "j < 10" "''0123456789'' ! i = ''0123456789'' ! j"
  shows "i = j"
proof -
  have "distinct ''0123456789''" by simp
  then show ?thesis using assms nth_eq_iff_index_eq [of "''0123456789''" i j] by simp
qed

lemma digits_small: "n < 10 \<Longrightarrow> digits n = [''0123456789'' ! n]"
  by (subst digits.simps) simp

lemma digits_large:
  "\<not> n < 10 \<Longrightarrow> digits n = digits (n div 10) @ [''0123456789'' ! (n mod 10)]"
  by (subst digits.simps) simp

lemma digits_nonempty: "digits n \<noteq> []"
  by (cases "n < 10") (simp_all add: digits_small digits_large)

lemma digits_chars: "set (digits n) \<subseteq> set ''0123456789''"
proof -
  define S where "S = set ''0123456789''"
  have mem: "''0123456789'' ! k \<in> S" if "k < 10" for k
    unfolding S_def using that by (intro nth_mem) simp
  have "set (digits n) \<subseteq> S"
  proof (induction n rule: digits.induct)
    case (1 n)
    show ?case
    proof (cases "n < 10")
      case True
      then show ?thesis using mem [of n] by (simp add: digits_small)
    next
      case False
      have "n mod 10 < 10" by simp
      from mem [OF this] "1.IH" [OF False] show ?thesis by (simp add: digits_large [OF False])
    qed
  qed
  then show ?thesis by (simp only: S_def)
qed

lemma digits_inj: "digits n = digits m \<Longrightarrow> n = m"
proof (induction n arbitrary: m rule: digits.induct)
  case (1 n)
  show ?case
  proof (cases "n < 10")
    case True
    note n = this
    show ?thesis
    proof (cases "m < 10")
      case True
      with n "1.prems" show ?thesis by (simp add: digits_small digit_nth_inj)
    next
      case False
      with n "1.prems" digits_nonempty [of "m div 10"] show ?thesis
        by (simp add: digits_small digits_large)
    qed
  next
    case False
    note n = this
    show ?thesis
    proof (cases "m < 10")
      case True
      with n "1.prems" digits_nonempty [of "n div 10"] show ?thesis
        by (simp add: digits_small digits_large)
    next
      case False
      with n "1.prems" have e: "digits (n div 10) = digits (m div 10)"
        and c: "''0123456789'' ! (n mod 10) = ''0123456789'' ! (m mod 10)"
        by (simp_all add: digits_large)
      from "1.IH" [OF n e] have d: "n div 10 = m div 10" .
      have "n mod 10 = m mod 10" using c by (intro digit_nth_inj) simp_all
      with d show ?thesis by (metis div_mult_mod_eq)
    qed
  qed
qed

lemma Number_toString_inj: "Number_toString a = Number_toString b \<Longrightarrow> a = b"
proof -
  assume eq: "Number_toString a = Number_toString b"
  have nodash: "hd (digits k) \<noteq> CHR ''-''" for k
  proof -
    have "hd (digits k) \<in> set (digits k)" using digits_nonempty by simp
    then have "hd (digits k) \<in> set ''0123456789''" using digits_chars by blast
    then show ?thesis by auto
  qed
  show ?thesis
  proof (cases "a < 0")
    case True
    note a = this
    show ?thesis
    proof (cases "b < 0")
      case True
      with a eq have "digits (nat (- a)) = digits (nat (- b))" by (simp add: Number_toString_def)
      then have "nat (- a) = nat (- b)" by (rule digits_inj)
      with a True show ?thesis by simp
    next
      case False
      with a eq have "CHR ''-'' # digits (nat (- a)) = digits (nat b)"
        by (simp add: Number_toString_def)
      then have "hd (digits (nat b)) = CHR ''-''" by (metis list.sel(1))
      with nodash show ?thesis by blast
    qed
  next
    case False
    note a = this
    show ?thesis
    proof (cases "b < 0")
      case True
      with a eq have "digits (nat a) = CHR ''-'' # digits (nat (- b))"
        by (simp add: Number_toString_def)
      then have "hd (digits (nat a)) = CHR ''-''" by (metis list.sel(1))
      with nodash show ?thesis by blast
    next
      case False
      with a eq have "digits (nat a) = digits (nat b)" by (simp add: Number_toString_def)
      then have "nat a = nat b" by (rule digits_inj)
      with a False show ?thesis by simp
    qed
  qed
qed

text \<open>Two characters for every number from 0 to 99, as for a month and a day of the month.\<close>

lemma pad2_length:
  assumes "0 \<le> k" "k < 100"
  shows "length (padStart 2 (CHR ''0'') (Number_toString k)) = 2"
proof (cases "nat k < 10")
  case True
  with assms show ?thesis by (simp add: padStart_def Number_toString_def digits_small)
next
  case False
  with assms have "nat k div 10 < 10" by simp
  with False assms show ?thesis
    by (simp add: padStart_def Number_toString_def digits_large digits_small)
qed

lemma pad2_inj:
  assumes "0 \<le> k" "k < 100" "0 \<le> l" "l < 100"
    and "padStart 2 (CHR ''0'') (Number_toString k) = padStart 2 (CHR ''0'') (Number_toString l)"
  shows "k = l"
proof -
  have len: "length (digits (nat x)) = (if nat x < 10 then 1 else 2)" if "0 \<le> x" "x < 100" for x :: int
  proof (cases "nat x < 10")
    case True
    then show ?thesis by (simp add: digits_small)
  next
    case False
    with that have "nat x div 10 < 10" by simp
    with False show ?thesis by (simp add: digits_large digits_small)
  qed
  have tens: "hd (digits (nat x)) \<noteq> CHR ''0''" if "0 \<le> x" "x < 100" "\<not> nat x < 10" for x :: int
  proof -
    from that have d: "nat x div 10 < 10" "nat x div 10 \<noteq> 0" by simp_all
    have "''0123456789'' ! (nat x div 10) \<noteq> ''0123456789'' ! 0"
      using digit_nth_inj [of "nat x div 10" 0] d by auto
    with that d show ?thesis by (simp add: digits_large digits_small)
  qed
  show ?thesis
  proof (cases "nat k < 10")
    case True
    note k = this
    show ?thesis
    proof (cases "nat l < 10")
      case True
      with k assms len [of k] len [of l] have "digits (nat k) = digits (nat l)"
        by (simp add: padStart_def Number_toString_def)
      then have "nat k = nat l" by (rule digits_inj)
      with assms show ?thesis by simp
    next
      case False
      with k assms len [of k] len [of l] have "CHR ''0'' # digits (nat k) = digits (nat l)"
        by (simp add: padStart_def Number_toString_def)
      then have "hd (digits (nat l)) = CHR ''0''" by (metis list.sel(1))
      with tens [OF assms(3,4) False] show ?thesis by blast
    qed
  next
    case False
    note k = this
    show ?thesis
    proof (cases "nat l < 10")
      case True
      with k assms len [of k] len [of l] have "digits (nat k) = CHR ''0'' # digits (nat l)"
        by (simp add: padStart_def Number_toString_def)
      then have "hd (digits (nat k)) = CHR ''0''" by (metis list.sel(1))
      with tens [OF assms(1,2) k] show ?thesis by blast
    next
      case False
      with k assms len [of k] len [of l] have "digits (nat k) = digits (nat l)"
        by (simp add: padStart_def Number_toString_def)
      then have "nat k = nat l" by (rule digits_inj)
      with assms show ?thesis by simp
    qed
  qed
qed

text \<open>
  \<^verbatim>\<open>formatDate\<close> gives different Dates different strings: the last six characters are
  \<^verbatim>\<open>-MM-DD\<close>, those before them are the year, and the three fields determine the Date.
\<close>

lemma formatDate_inj:
  assumes "formatDate a = formatDate b"
  shows "a = b"
proof -
  define pad where "pad = (\<lambda>k. padStart 2 (CHR ''0'') (Number_toString k))"
  have f: "formatDate t = Number_toString (YearFromTime t) @
             (''-'' @ pad (MonthFromTime t + 1) @ ''-'' @ pad (DateFromTime t))" for t
    by (simp add: formatDate_def getFullYear_def getMonth_def getDate_def pad_def)
  have mr: "0 \<le> MonthFromTime t + 1" "MonthFromTime t + 1 < 100" for t
    using MonthFromTime_range [of t] by simp_all
  have dr: "0 \<le> DateFromTime t" "DateFromTime t < 100" for t
    using DateFromTime_range [of t] by simp_all
  have lm: "length (pad (MonthFromTime t + 1)) = 2" for t
    unfolding pad_def by (rule pad2_length [OF mr])
  have ld: "length (pad (DateFromTime t)) = 2" for t
    unfolding pad_def by (rule pad2_length [OF dr])
  from assms have e: "Number_toString (YearFromTime a) @
             (''-'' @ pad (MonthFromTime a + 1) @ ''-'' @ pad (DateFromTime a))
           = Number_toString (YearFromTime b) @
             (''-'' @ pad (MonthFromTime b + 1) @ ''-'' @ pad (DateFromTime b))"
    by (simp only: f)
  have "length (''-'' @ pad (MonthFromTime a + 1) @ ''-'' @ pad (DateFromTime a))
      = length (''-'' @ pad (MonthFromTime b + 1) @ ''-'' @ pad (DateFromTime b))"
    by (simp add: lm ld)
  with e have both: "Number_toString (YearFromTime a) = Number_toString (YearFromTime b)
      \<and> ''-'' @ pad (MonthFromTime a + 1) @ ''-'' @ pad (DateFromTime a)
        = ''-'' @ pad (MonthFromTime b + 1) @ ''-'' @ pad (DateFromTime b)"
    by (metis append_eq_append_conv)
  then have y: "Number_toString (YearFromTime a) = Number_toString (YearFromTime b)"
    and r: "pad (MonthFromTime a + 1) @ ''-'' @ pad (DateFromTime a)
          = pad (MonthFromTime b + 1) @ ''-'' @ pad (DateFromTime b)"
    by simp_all
  from r lm [of a] lm [of b] have m: "pad (MonthFromTime a + 1) = pad (MonthFromTime b + 1)"
    and d: "pad (DateFromTime a) = pad (DateFromTime b)"
    by simp_all
  have Y: "YearFromTime a = YearFromTime b" using y by (rule Number_toString_inj)
  have "MonthFromTime a + 1 = MonthFromTime b + 1"
    using m unfolding pad_def by (intro pad2_inj mr)
  then have M: "MonthFromTime a = MonthFromTime b" by simp
  have D: "DateFromTime a = DateFromTime b"
    using d unfolding pad_def by (intro pad2_inj dr)
  have "a = MakeDay (YearFromTime a) (MonthFromTime a) (DateFromTime a)"
    using MakeDay_fields_of [of a 0] by simp
  also have "\<dots> = MakeDay (YearFromTime b) (MonthFromTime b) (DateFromTime b)"
    by (simp only: Y M D)
  also have "\<dots> = b" using MakeDay_fields_of [of b 0] by simp
  finally show ?thesis .
qed

section \<open>Facts about the store and the handlers\<close>

lemma isTaskCompleted_iff:
  "isTaskCompleted t cs now \<longleftrightarrow>
     (\<exists>c\<in>set cs. task_id c = tid t \<and> string_ge (completed_date c) (getPeriodStartDate t now))"
  by (simp add: isTaskCompleted_def list_ex_iff)

lemma isTaskCompleted_set_cong:
  "set cs = set cs' \<Longrightarrow> isTaskCompleted t cs now = isTaskCompleted t cs' now"
  by (simp add: isTaskCompleted_iff)

lemma getUserCompletions_set_cong:
  assumes "set (task_completions db1) = set (task_completions db2)" and "tasks db1 = tasks db2"
  shows "set (getUserCompletions db1 u s now) = set (getUserCompletions db2 u s now)"
  using assms by (simp add: getUserCompletions_def)

lemma queryOne_filter_None: "queryOne (filter P xs) = None \<longleftrightarrow> \<not> list_ex P xs"
proof -
  have "queryOne (filter P xs) = None \<longleftrightarrow> filter P xs = []"
    by (simp add: queryOne_def split: list.splits)
  also have "\<dots> \<longleftrightarrow> \<not> list_ex P xs"
    by (simp add: filter_empty_conv list_ex_iff)
  finally show ?thesis .
qed

lemma queryOne_filter_Some: "(\<exists>r. queryOne (filter P xs) = Some r) \<longleftrightarrow> list_ex P xs"
  using queryOne_filter_None [of P xs] by (cases "queryOne (filter P xs)") auto

lemma toggle_not_found:
  assumes "queryOne (filter (\<lambda>t. tid t = i \<and> user_id t = u) (tasks db)) = None"
  shows "toggle db u i now = (db, Inl (Not_Found ''Task not found''))"
  unfolding toggle_def assms by simp

lemma toggle_db:
  assumes "queryOne (filter (\<lambda>t. tid t = i \<and> user_id t = u) (tasks db)) = Some t"
  shows "fst (toggle db u i now) =
           (if list_ex (\<lambda>c. task_id c = i \<and> completed_date c = getTodayDate now) (task_completions db)
            then delete_completion i (getTodayDate now) db
            else db\<lparr>task_completions :=
                      task_completions db @ [\<lparr>task_id = i, completed_date = getTodayDate now\<rparr>]\<rparr>)"
proof (cases "list_ex (\<lambda>c. task_id c = i \<and> completed_date c = getTodayDate now) (task_completions db)")
  case True
  then obtain r where r: "queryOne (filter (\<lambda>c. task_id c = i \<and> completed_date c = getTodayDate now)
                          (task_completions db)) = Some r"
    using queryOne_filter_Some [of "\<lambda>c. task_id c = i \<and> completed_date c = getTodayDate now"
        "task_completions db"] by blast
  show ?thesis unfolding toggle_def assms Let_def r using True by simp
next
  case False
  then have r: "queryOne (filter (\<lambda>c. task_id c = i \<and> completed_date c = getTodayDate now)
                          (task_completions db)) = None"
    by (simp add: queryOne_filter_None)
  show ?thesis unfolding toggle_def assms Let_def r using False by (simp add: insert_completion_def)
qed

lemma toggle_response:
  assumes "queryOne (filter (\<lambda>t. tid t = i \<and> user_id t = u) (tasks db)) = Some t"
  shows "snd (toggle db u i now) =
           Inr (t, if isTaskCompleted t (getUserCompletions (fst (toggle db u i now)) u None now) now
                   then 1 else 0)"
proof (cases "list_ex (\<lambda>c. task_id c = i \<and> completed_date c = getTodayDate now) (task_completions db)")
  case True
  then obtain r where r: "queryOne (filter (\<lambda>c. task_id c = i \<and> completed_date c = getTodayDate now)
                          (task_completions db)) = Some r"
    using queryOne_filter_Some [of "\<lambda>c. task_id c = i \<and> completed_date c = getTodayDate now"
        "task_completions db"] by blast
  show ?thesis unfolding toggle_def assms Let_def r by simp
next
  case False
  then have r: "queryOne (filter (\<lambda>c. task_id c = i \<and> completed_date c = getTodayDate now)
                          (task_completions db)) = None"
    by (simp add: queryOne_filter_None)
  show ?thesis unfolding toggle_def assms Let_def r using False by (simp add: insert_completion_def)
qed

lemma toggle_tasks:
  "tasks (fst (toggle db u i now)) = tasks db \<and> categories (fst (toggle db u i now)) = categories db
   \<and> foreign_keys (fst (toggle db u i now)) = foreign_keys db"
proof (cases "queryOne (filter (\<lambda>t. tid t = i \<and> user_id t = u) (tasks db))")
  case None
  then show ?thesis by (simp add: toggle_not_found)
next
  case (Some t)
  show ?thesis by (simp add: toggle_db [OF Some] delete_completion_def)
qed

lemma toggle_twice_set:
  assumes "queryOne (filter (\<lambda>t. tid t = i \<and> user_id t = u) (tasks db)) = Some t"
  shows "set (task_completions (fst (toggle (fst (toggle db u i now)) u i now))) =
         set (task_completions db)"
proof -
  let ?today = "getTodayDate now"
  let ?P = "\<lambda>c. task_id c = i \<and> completed_date c = ?today"
  let ?db1 = "fst (toggle db u i now)"
  have found1: "queryOne (filter (\<lambda>t. tid t = i \<and> user_id t = u) (tasks ?db1)) = Some t"
    using assms toggle_tasks [of db u i now] by simp
  show ?thesis
  proof (cases "list_ex ?P (task_completions db)")
    case True
    have l1: "task_completions ?db1 = filter (\<lambda>c. \<not> ?P c) (task_completions db)"
      using True by (simp add: toggle_db [OF assms] delete_completion_def)
    have no: "\<not> list_ex ?P (task_completions ?db1)" by (simp add: l1 list_ex_iff)
    have l2: "task_completions (fst (toggle ?db1 u i now)) =
                task_completions ?db1 @ [\<lparr>task_id = i, completed_date = ?today\<rparr>]"
      using no by (simp add: toggle_db [OF found1])
    from True obtain c where c: "c \<in> set (task_completions db)" "?P c"
      by (auto simp: list_ex_iff)
    then have "c = \<lparr>task_id = i, completed_date = ?today\<rparr>" by simp
    with c have "\<lparr>task_id = i, completed_date = ?today\<rparr> \<in> set (task_completions db)" by simp
    then show ?thesis unfolding l2 l1 by auto
  next
    case False
    have l1: "task_completions ?db1 = task_completions db @ [\<lparr>task_id = i, completed_date = ?today\<rparr>]"
      using False by (simp add: toggle_db [OF assms])
    have yes: "list_ex ?P (task_completions ?db1)" by (simp add: l1)
    have "task_completions (fst (toggle ?db1 u i now)) = filter (\<lambda>c. \<not> ?P c) (task_completions ?db1)"
      using yes by (simp add: toggle_db [OF found1] delete_completion_def)
    also have "\<dots> = task_completions db"
      using False unfolding l1 by (simp add: list_ex_iff filter_id_conv)
    finally show ?thesis by simp
  qed
qed


lemma getPeriodStartDate_daily:
  assumes "on_clock now" and "frequency t = ''daily''"
  shows "getPeriodStartDate t now = getTodayDate now"
  by (simp add: getPeriodStartDate_def today_is_now [OF assms(1)] assms(2) getTodayDate_def)

lemma cleanupOldCompletions_filter:
  "task_completions (cleanupOldCompletions db now)
     = filter (\<lambda>c. string_ge (completed_date c) (getCompletionCutoffDate now)) (task_completions db)"
  by (simp add: cleanupOldCompletions_def string_ge_def)

lemma getPeriodStartDate_one_time:
  "frequency t = ''one-time'' \<Longrightarrow> getPeriodStartDate t now = ''1970-01-01''"
  by (simp add: getPeriodStartDate_def)

text \<open>
  No handler changes the setting of the connection, so it stays as \<open>SQL_Database\<close> opens it.
\<close>

lemma foreign_keys_kept:
  "foreign_keys (cleanupOldCompletions db now) = foreign_keys db"
  "foreign_keys (fst (toggle db u i now)) = foreign_keys db"
  "foreign_keys (fst (delete_category db u i)) = foreign_keys db"
  "foreign_keys (fst (delete_task db u i)) = foreign_keys db"
  "foreign_keys (initDatabase cs ts ls now) = False"
proof -
  show "foreign_keys (cleanupOldCompletions db now) = foreign_keys db"
    by (simp add: cleanupOldCompletions_def)
  show "foreign_keys (fst (toggle db u i now)) = foreign_keys db"
    using toggle_tasks [of db u i now] by simp
  show "foreign_keys (fst (delete_category db u i)) = foreign_keys db"
    by (simp add: delete_category_def delete_tasks_def delete_categories_def Let_def
        split: option.splits)
  show "foreign_keys (fst (delete_task db u i)) = foreign_keys db"
    by (simp add: delete_task_def delete_tasks_def Let_def split: option.splits)
  show "foreign_keys (initDatabase cs ts ls now) = False"
    by (simp add: initDatabase_def cleanupOldCompletions_def SQL_Database_def)
qed

text \<open>
  Without enforcement, the two statements of \<^verbatim>\<open>DELETE /api/categories/:id\<close> and the one of
  \<^verbatim>\<open>DELETE /api/tasks/:id\<close> leave the ledger as it is.
\<close>

lemma delete_without_enforcement:
  assumes "\<not> foreign_keys db"
  shows "task_completions (fst (delete_category db u i)) = task_completions db"
    and "task_completions (fst (delete_task db u i)) = task_completions db"
  using assms
  by (simp_all add: delete_category_def delete_task_def delete_tasks_def delete_categories_def
      Let_def split: option.splits)

text \<open>
  On a connection that enforces foreign keys, deleting a category leaves no completion of
  any of its tasks behind.
\<close>

lemma delete_category_cascade_enforced:
  assumes "foreign_keys db"
    and "queryOne (filter (\<lambda>c. cat_id c = i \<and> cat_user_id c = u) (categories db)) = Some c0"
  shows "\<forall>t\<in>set (tasks db). category_id t = i \<and> user_id t = u \<longrightarrow>
           (\<forall>c\<in>set (task_completions (fst (delete_category db u i))). task_id c \<noteq> tid t)"
  unfolding delete_category_def assms(2)
  using assms(1) by (auto simp: delete_tasks_def delete_categories_def Let_def)

section \<open>Evaluation at the dates of the examples\<close>

lemma formatDate_fields:
  "formatDate t =
     Number_toString (YearFromTime t) @ ''-'' @
     padStart 2 (CHR ''0'') (Number_toString (MonthFromTime t + 1)) @ ''-'' @
     padStart 2 (CHR ''0'') (Number_toString (DateFromTime t))"
  by (simp add: formatDate_def getFullYear_def getMonth_def getDate_def)

lemma new_Date_2024_06_15: "new_Date 2024 5 15 = 19889"
  by (simp add: new_Date_def MakeDay_def DayFromYear_def DaysInYear_def month_start_def)

lemma fields_2024_06_15:
  "YearFromTime 19889 = 2024" "MonthFromTime 19889 = 5" "DateFromTime 19889 = 15"
proof -
  have "MakeDay 2024 5 15 = 19889"
    by (simp add: MakeDay_def DayFromYear_def DaysInYear_def month_start_def)
  then show "YearFromTime 19889 = 2024" "MonthFromTime 19889 = 5" "DateFromTime 19889 = 15"
    using MakeDay_fields [of 15 2024 5] by simp_all
qed

lemma formatDate_2024_06_15: "formatDate 19889 = ''2024-06-15''"
  by (simp add: formatDate_fields fields_2024_06_15 Number_toString_def padStart_def digits.simps)

lemma example_task_found:
  "queryOne (filter (\<lambda>t. tid t = 1 \<and> user_id t = ''u1'') (tasks example_db)) = Some example_task"
  by (simp add: example_db_def SQL_Database_def example_task_def queryOne_def)

lemma on_clock_2024_06_15: "on_clock (new_Date 2024 5 15)"
  by (simp add: new_Date_2024_06_15 on_clock_def DayFromYear_def)

lemma new_Date_2024_01_05: "new_Date 2024 0 5 = 19727"
  by (simp add: new_Date_def MakeDay_def DayFromYear_def DaysInYear_def month_start_def)

lemma fields_2024_01_05:
  "getFullYear (new_Date 2024 0 5) = 2024" "getMonth (new_Date 2024 0 5) = 0"
  "getDate (new_Date 2024 0 5) = 5"
  using MakeDay_fields [of 5 2024 0]
  by (simp_all add: new_Date_def getFullYear_def getMonth_def getDate_def)

lemma on_clock_2024_01_05: "on_clock (new_Date 2024 0 5)"
  by (simp add: new_Date_2024_01_05 on_clock_def DayFromYear_def)

lemma new_Date_2023_03_01: "new_Date 2023 2 1 = 19417"
  by (simp add: new_Date_def MakeDay_def DayFromYear_def DaysInYear_def month_start_def)

lemma new_Date_2023_02_30: "new_Date 2023 1 30 = 19418"
  by (simp add: new_Date_def MakeDay_def DayFromYear_def DaysInYear_def month_start_def)

lemma fields_2023_03_01:
  "YearFromTime 19417 = 2023" "MonthFromTime 19417 = 2" "DateFromTime 19417 = 1"
  using MakeDay_fields [of 1 2023 2] new_Date_2023_03_01 by (simp_all add: new_Date_def)

lemma fields_2023_03_02:
  "YearFromTime 19418 = 2023" "MonthFromTime 19418 = 2" "DateFromTime 19418 = 2"
proof -
  have "MakeDay 2023 2 2 = 19418"
    by (simp add: MakeDay_def DayFromYear_def DaysInYear_def month_start_def)
  then show "YearFromTime 19418 = 2023" "MonthFromTime 19418 = 2" "DateFromTime 19418 = 2"
    using MakeDay_fields [of 2 2023 2] by simp_all
qed

lemma formatDate_2023_03_01: "formatDate 19417 = ''2023-03-01''"
  by (simp add: formatDate_fields fields_2023_03_01 Number_toString_def padStart_def digits.simps)

lemma formatDate_2023_03_02: "formatDate 19418 = ''2023-03-02''"
  by (simp add: formatDate_fields fields_2023_03_02 Number_toString_def padStart_def digits.simps)

lemma on_clock_2023_03_01: "on_clock (new_Date 2023 2 1)"
  by (simp add: new_Date_2023_03_01 on_clock_def DayFromYear_def)

lemma monthly30_periodStart: "monthly_periodStart (Some 30) 19417 = 19418"
  by (simp add: monthly_periodStart_def getDate_def getFullYear_def getMonth_def
      fields_2023_03_01 new_Date_2023_02_30)

lemma monthly30_getPeriodStartDate:
  "getPeriodStartDate example_monthly30_task (new_Date 2023 2 1) = ''2023-03-02''"
proof -
  have "new_Date (getFullYear 19417) (getMonth 19417) (getDate 19417) = 19417"
    using today_is_now [OF on_clock_2023_03_01] by (simp add: new_Date_2023_03_01)
  then show ?thesis
    by (simp add: getPeriodStartDate_def new_Date_2023_03_01 example_monthly30_task_def
        monthly30_periodStart formatDate_2023_03_02)
qed

lemma cutoff_2024_06_15: "getCompletionCutoffDate (new_Date 2024 5 15) = ''2024-03-15''"
proof -
  have "setMonth 19889 (getMonth 19889 - COMPLETION_HISTORY_MONTHS) = MakeDay 2024 2 15"
    by (simp add: setMonth_def getMonth_def fields_2024_06_15 COMPLETION_HISTORY_MONTHS_def)
  moreover have "formatDate (MakeDay 2024 2 15) = ''2024-03-15''"
    using MakeDay_fields [of 15 2024 2]
    by (simp add: formatDate_fields Number_toString_def padStart_def digits.simps)
  ultimately show ?thesis
    by (simp add: getCompletionCutoffDate_def new_Date_2024_06_15)
qed

lemma fields_2024_06_09:
  "new_Date 2024 5 9 = 19883"
  "YearFromTime 19883 = 2024" "MonthFromTime 19883 = 5" "DateFromTime 19883 = 9"
proof -
  have m: "MakeDay 2024 5 9 = 19883"
    by (simp add: MakeDay_def DayFromYear_def DaysInYear_def month_start_def)
  then show "new_Date 2024 5 9 = 19883" by (simp add: new_Date_def)
  from m show "YearFromTime 19883 = 2024" "MonthFromTime 19883 = 5" "DateFromTime 19883 = 9"
    using MakeDay_fields [of 9 2024 5] by simp_all
qed

lemma formatDate_2024_06_09: "formatDate 19883 = ''2024-06-09''"
  by (simp add: formatDate_fields fields_2024_06_09 Number_toString_def padStart_def digits.simps)

lemma weekly_example_periodStart: "weekly_periodStart (Some 0) 19889 = 19883"
proof -
  have "setDate 19889 (getDate 19889 + (- 6)) = 19889 + (- 6)" by (rule setDate_shift)
  then show ?thesis
    by (simp add: weekly_periodStart_def getDay_def WeekDay_def js_rem_def)
qed

lemma fields_2023_12_20:
  "new_Date 2023 11 20 = 19711"
  "YearFromTime 19711 = 2023" "MonthFromTime 19711 = 11" "DateFromTime 19711 = 20"
proof -
  have m: "MakeDay 2023 11 20 = 19711"
    by (simp add: MakeDay_def DayFromYear_def DaysInYear_def month_start_def)
  then show "new_Date 2023 11 20 = 19711" by (simp add: new_Date_def)
  from m show "YearFromTime 19711 = 2023" "MonthFromTime 19711 = 11" "DateFromTime 19711 = 20"
    using MakeDay_fields [of 20 2023 11] by simp_all
qed

lemma formatDate_2023_12_20: "formatDate 19711 = ''2023-12-20''"
  by (simp add: formatDate_fields fields_2023_12_20 Number_toString_def padStart_def digits.simps)

lemma monthly_example_periodStart: "monthly_periodStart (Some 20) (new_Date 2024 0 5) = 19711"
proof -
  have "new_Date 2024 (- 1) 20 = 19711"
    by (simp add: new_Date_def MakeDay_def DayFromYear_def DaysInYear_def month_start_def)
  then show ?thesis by (simp add: monthly_periodStart_def fields_2024_01_05)
qed

lemma DaysInMonth_2024:
  "DaysInMonth 2024 1 = 29" "DaysInMonth 2024 2 = 31" "DaysInMonth 2024 4 = 31"
  by (simp_all add: DaysInMonth_def MakeDay_def DayFromYear_def DaysInYear_def month_start_def)

lemma fields_2024_03_15:
  "new_Date 2024 2 15 = 19797"
  "YearFromTime 19797 = 2024" "MonthFromTime 19797 = 2" "DateFromTime 19797 = 15"
proof -
  have m: "MakeDay 2024 2 15 = 19797"
    by (simp add: MakeDay_def DayFromYear_def DaysInYear_def month_start_def)
  then show "new_Date 2024 2 15 = 19797" by (simp add: new_Date_def)
  from m show "YearFromTime 19797 = 2024" "MonthFromTime 19797 = 2" "DateFromTime 19797 = 15"
    using MakeDay_fields [of 15 2024 2] by simp_all
qed

lemma setMonth_2024_06_15: "setMonth 19889 (getMonth 19889 - 3) = 19797"
  by (simp add: setMonth_def getMonth_def fields_2024_06_15 MakeDay_def DayFromYear_def
      DaysInYear_def month_start_def)

lemma fields_2024_05_31:
  "new_Date 2024 4 31 = 19874"
  "YearFromTime 19874 = 2024" "MonthFromTime 19874 = 4" "DateFromTime 19874 = 31"
proof -
  have m: "MakeDay 2024 4 31 = 19874"
    by (simp add: MakeDay_def DayFromYear_def DaysInYear_def month_start_def)
  then show "new_Date 2024 4 31 = 19874" by (simp add: new_Date_def)
  from m show "YearFromTime 19874 = 2024" "MonthFromTime 19874 = 4" "DateFromTime 19874 = 31"
    using MakeDay_fields_in_month [of 31 2024 4] DaysInMonth_2024 by simp_all
qed

lemma formatDate_2024_05_31: "formatDate 19874 = ''2024-05-31''"
  by (simp add: formatDate_fields fields_2024_05_31 Number_toString_def padStart_def digits.simps)

lemma setMonth_2024_05_31: "setMonth 19874 (getMonth 19874 - 3) = 19784"
  by (simp add: setMonth_def getMonth_def fields_2024_05_31 MakeDay_def DayFromYear_def
      DaysInYear_def month_start_def)

lemma fields_2024_03_02:
  "YearFromTime 19784 = 2024" "MonthFromTime 19784 = 2" "DateFromTime 19784 = 2"
proof -
  have m: "MakeDay 2024 2 2 = 19784"
    by (simp add: MakeDay_def DayFromYear_def DaysInYear_def month_start_def)
  then show "YearFromTime 19784 = 2024" "MonthFromTime 19784 = 2" "DateFromTime 19784 = 2"
    using MakeDay_fields [of 2 2024 2] by simp_all
qed

lemma cutoff_2024_05_31: "getCompletionCutoffDate (new_Date 2024 4 31) = ''2024-03-02''"
proof -
  have "formatDate 19784 = ''2024-03-02''"
    by (simp add: formatDate_fields fields_2024_03_02 Number_toString_def padStart_def
        digits.simps)
  then show ?thesis
    using setMonth_2024_05_31
    by (simp add: getCompletionCutoffDate_def COMPLETION_HISTORY_MONTHS_def fields_2024_05_31)
qed

section \<open>Facts about the start of the period\<close>

lemma weekly_periodStart_facts:
  assumes "on_clock now" and "frequency t = ''weekly''" and "reset_day t = Some R"
    and "0 \<le> R" and "R \<le> 6"
  shows "new_Date (getFullYear now) (getMonth now) (getDate now) = now
       \<and> getPeriodStartDate t now = formatDate (weekly_periodStart (Some R) now)
       \<and> getDay (weekly_periodStart (Some R) now) = R
       \<and> weekly_periodStart (Some R) now \<le> now
       \<and> now - weekly_periodStart (Some R) now \<le> 6"
proof -
  define cur where "cur = getDay now"
  define dsr where "dsr = js_rem (cur - R + 7) 7"
  have cur: "0 \<le> cur" "cur \<le> 6" by (simp_all add: cur_def getDay_def WeekDay_def)
  have dsr: "dsr = (cur - R + 7) mod 7" using cur assms(4,5) by (simp add: dsr_def js_rem_def)
  have dsr_range: "0 \<le> dsr" "dsr \<le> 6" by (simp_all add: dsr)
  have "weekly_periodStart (Some R) now = setDate now (getDate now + (- dsr))"
    by (simp add: weekly_periodStart_def dsr_def cur_def)
  then have p: "weekly_periodStart (Some R) now = now - dsr"
    by (simp only: setDate_shift)
  have today: "new_Date (getFullYear now) (getMonth now) (getDate now) = now"
    by (rule today_is_now [OF assms(1)])
  have str: "getPeriodStartDate t now = formatDate (weekly_periodStart (Some R) now)"
    by (simp add: getPeriodStartDate_def today assms(2,3))
  have "getDay (now - dsr) = (now + 4 - ((now + 4) mod 7 - R + 7) mod 7) mod 7"
    by (simp add: getDay_def WeekDay_def dsr cur_def algebra_simps)
  also have "\<dots> = R" by (rule week_arith [OF assms(4,5)])
  finally have wd: "getDay (weekly_periodStart (Some R) now) = R" by (simp add: p)
  from today str wd dsr_range show ?thesis by (simp add: p)
qed

lemma monthly_periodStart_facts:
  assumes "on_clock now" and "frequency t = ''monthly''" and "reset_day t = Some R"
    and "1 \<le> R" and "R \<le> 28"
  shows "new_Date (getFullYear now) (getMonth now) (getDate now) = now
       \<and> getPeriodStartDate t now = formatDate (monthly_periodStart (Some R) now)
       \<and> getDate (monthly_periodStart (Some R) now) = R
       \<and> monthly_periodStart (Some R) now \<le> now
       \<and> now < nextPeriodStart (monthly_periodStart (Some R) now) R
       \<and> getDate (nextPeriodStart (monthly_periodStart (Some R) now) R) = R
       \<and> (if R \<le> getDate now
          then getFullYear (monthly_periodStart (Some R) now) = getFullYear now
             \<and> getMonth (monthly_periodStart (Some R) now) = getMonth now
          else if getMonth now = 0
          then getFullYear (monthly_periodStart (Some R) now) = getFullYear now - 1
             \<and> getMonth (monthly_periodStart (Some R) now) = 11
          else getFullYear (monthly_periodStart (Some R) now) = getFullYear now
             \<and> getMonth (monthly_periodStart (Some R) now) = getMonth now - 1)"
proof -
  define Y where "Y = YearFromTime now"
  define M where "M = MonthFromTime now"
  define D where "D = DateFromTime now"
  define p where "p = monthly_periodStart (Some R) now"
  have Y: "1970 \<le> Y" using on_clock_year [OF assms(1)] by (simp add: Y_def)
  have M: "0 \<le> M" "M \<le> 11" using MonthFromTime_range [of now] by (simp_all add: M_def)
  have now: "MakeDay Y M (D + k) = now + k" for k
    unfolding Y_def M_def D_def by (rule MakeDay_fields_of)
  have month_end: "now < MakeDay Y (M + 1) 1"
    using DateFromTime_month_end [of now] by (simp add: Y_def M_def)
  have today: "new_Date (getFullYear now) (getMonth now) (getDate now) = now"
    by (rule today_is_now [OF assms(1)])
  have str: "getPeriodStartDate t now = formatDate p"
    by (simp add: getPeriodStartDate_def today assms(2,3) p_def)
  have nd: "new_Date y m d = MakeDay y m d" if "1969 \<le> y" for y m d
    using that by (simp add: new_Date_def)
  have target: "now + (R - D) = MakeDay Y M R" using now [of "R - D"] by simp
  show ?thesis
  proof (cases "R \<le> D")
    case True
    have p: "p = MakeDay Y M R"
      using True Y by (simp add: p_def monthly_periodStart_def getDate_def getFullYear_def
          getMonth_def Y_def [symmetric] M_def [symmetric] D_def [symmetric] nd)
    have fy: "YearFromTime p = Y" and fm: "MonthFromTime p = M" and fd: "DateFromTime p = R"
      using MakeDay_fields [OF assms(4,5), of Y M] M by (simp_all add: p)
    have le: "p \<le> now" using target True by (simp add: p)
    have nx: "nextPeriodStart p R = MakeDay Y (M + 1) R"
      using Y by (simp add: nextPeriodStart_def getFullYear_def getMonth_def fy fm nd)
    have "MakeDay Y (M + 1) R = MakeDay Y (M + 1) 1 + (R - 1)"
      using MakeDay_day [of Y "M + 1" 1 "R - 1"] by simp
    with month_end assms(4) have lt: "now < nextPeriodStart p R" by (simp add: nx)
    have nxd: "getDate (nextPeriodStart p R) = R"
      using MakeDay_fields(3) [OF assms(4,5), of Y "M + 1"] by (simp add: nx getDate_def)
    from today str fd le lt nxd fy fm True show ?thesis
      by (simp add: p_def [symmetric] getDate_def getFullYear_def getMonth_def
          Y_def [symmetric] M_def [symmetric] D_def [symmetric])
  next
    case False
    have p: "p = MakeDay Y (M - 1) R"
      using False Y by (simp add: p_def monthly_periodStart_def getDate_def getFullYear_def
          getMonth_def Y_def [symmetric] M_def [symmetric] D_def [symmetric] nd)
    have fy: "YearFromTime p = Y + (M - 1) div 12" and fm: "MonthFromTime p = (M - 1) mod 12"
      and fd: "DateFromTime p = R"
      using MakeDay_fields [OF assms(4,5), of Y "M - 1"] by (simp_all add: p)
    have yp: "1969 \<le> Y + (M - 1) div 12"
    proof -
      have "(- 1) div 12 \<le> (M - 1) div (12::int)" using M by (intro zdiv_mono1) simp_all
      then have "- 1 \<le> (M - 1) div 12" by simp
      with Y show ?thesis by simp
    qed
    have same: "MakeDay (Y + (M - 1) div 12) ((M - 1) mod 12 + 1) d = MakeDay Y M d" for d
    proof (rule MakeDay_same_month)
      have "12 * ((M - 1) div 12) + (M - 1) mod 12 = M - 1" by simp
      then show "12 * (Y + (M - 1) div 12) + ((M - 1) mod 12 + 1) = 12 * Y + M"
        by (simp add: algebra_simps)
    qed
    have nx: "nextPeriodStart p R = MakeDay Y M R"
      using yp by (simp add: nextPeriodStart_def getFullYear_def getMonth_def fy fm nd same)
    have lt: "now < nextPeriodStart p R" using target False by (simp add: nx)
    have nxd: "getDate (nextPeriodStart p R) = R"
      using MakeDay_fields(3) [OF assms(4,5), of Y M] by (simp add: nx getDate_def)
    have "p < MakeDay (YearFromTime p) (MonthFromTime p + 1) 1"
      using DateFromTime_month_end [of p] by simp
    also have "\<dots> = MakeDay Y M 1" by (simp add: fy fm same)
    also have "\<dots> = now + (1 - D)" using now [of "1 - D"] by simp
    also have "\<dots> \<le> now" using DateFromTime_month_end [of now] by (simp add: D_def)
    finally have le: "p \<le> now" by simp
    have ym: "if M = 0 then YearFromTime p = Y - 1 \<and> MonthFromTime p = 11
              else YearFromTime p = Y \<and> MonthFromTime p = M - 1"
    proof (cases "M = 0")
      case True
      then show ?thesis by (simp add: fy fm)
    next
      case False
      with M have "(M - 1) div 12 = 0" "(M - 1) mod 12 = M - 1" by simp_all
      with False show ?thesis by (simp add: fy fm)
    qed
    from today str fd le lt nxd ym False show ?thesis
      by (simp add: p_def [symmetric] getDate_def getFullYear_def getMonth_def
          Y_def [symmetric] M_def [symmetric] D_def [symmetric])
  qed
qed

section \<open>The claims\<close>

text \<open>
  C1 (as amended). For a daily task, \<^verbatim>\<open>isTaskCompleted\<close> is true iff the list of facts has a
  fact of the task whose date string is not below today's date string; a fact dated after
  today counts as well. When no fact of the task is dated after today, it is true iff the
  list has a fact of the task for today's exact date.
\<close>

theorem daily_completed_iff_fact_from_today:
  assumes "on_clock now" and "frequency t = ''daily''"
  shows "(isTaskCompleted t cs now \<longleftrightarrow>
            (\<exists>c\<in>set cs. task_id c = tid t \<and> string_ge (completed_date c) (getTodayDate now)))
       \<and> ((\<forall>c\<in>set cs. task_id c = tid t \<longrightarrow> \<not> string_lt (getTodayDate now) (completed_date c))
            \<longrightarrow> (isTaskCompleted t cs now \<longleftrightarrow>
                   (\<exists>c\<in>set cs. task_id c = tid t \<and> completed_date c = getTodayDate now)))"
proof -
  have a: "isTaskCompleted t cs now \<longleftrightarrow>
            (\<exists>c\<in>set cs. task_id c = tid t \<and> string_ge (completed_date c) (getTodayDate now))"
    by (simp add: isTaskCompleted_iff getPeriodStartDate_daily [OF assms])
  have b: "isTaskCompleted t cs now \<longleftrightarrow>
             (\<exists>c\<in>set cs. task_id c = tid t \<and> completed_date c = getTodayDate now)"
    if nofuture: "\<forall>c\<in>set cs. task_id c = tid t \<longrightarrow> \<not> string_lt (getTodayDate now) (completed_date c)"
  proof
    assume "isTaskCompleted t cs now"
    with a obtain c where c: "c \<in> set cs" "task_id c = tid t"
      "string_ge (completed_date c) (getTodayDate now)" by blast
    with nofuture have "\<not> string_lt (getTodayDate now) (completed_date c)" by blast
    with c(3) have "completed_date c = getTodayDate now"
      by (intro string_lt_total) (simp_all add: string_ge_def)
    with c show "\<exists>c\<in>set cs. task_id c = tid t \<and> completed_date c = getTodayDate now" by blast
  next
    assume "\<exists>c\<in>set cs. task_id c = tid t \<and> completed_date c = getTodayDate now"
    then show "isTaskCompleted t cs now"
      unfolding a by (auto simp: string_ge_def string_lt_irrefl)
  qed
  from a b show ?thesis by blast
qed

theorem daily_completed_iff_fact_from_today_witness:
  "on_clock (new_Date 2024 5 15) \<and> frequency example_task = ''daily''
   \<and> task_completions example_db
       = [\<lparr>task_id = 1, completed_date = ''2024-06-14''\<rparr>,
          \<lparr>task_id = 1, completed_date = ''2024-06-15''\<rparr>]
   \<and> \<not> string_lt (getTodayDate (new_Date 2024 5 15)) ''2024-06-14''
   \<and> \<not> string_lt (getTodayDate (new_Date 2024 5 15)) ''2024-06-15''
   \<and> getTodayDate (new_Date 2024 5 15) = ''2024-06-15''
   \<and> isTaskCompleted example_task (task_completions example_db) (new_Date 2024 5 15)"
proof -
  have h2: "frequency example_task = ''daily''" by (simp add: example_task_def)
  have today: "getTodayDate (new_Date 2024 5 15) = ''2024-06-15''"
    by (simp add: getTodayDate_def new_Date_2024_06_15 formatDate_2024_06_15)
  have l: "task_completions example_db
       = [\<lparr>task_id = 1, completed_date = ''2024-06-14''\<rparr>,
          \<lparr>task_id = 1, completed_date = ''2024-06-15''\<rparr>]"
    by (simp add: example_db_def SQL_Database_def)
  have n14: "\<not> string_lt (getTodayDate (new_Date 2024 5 15)) ''2024-06-14''"
    and n15: "\<not> string_lt (getTodayDate (new_Date 2024 5 15)) ''2024-06-15''"
    unfolding today by simp_all
  have h3: "\<forall>c\<in>set (task_completions example_db).
         task_id c = tid example_task
           \<longrightarrow> \<not> string_lt (getTodayDate (new_Date 2024 5 15)) (completed_date c)"
    unfolding l using n14 n15 by simp
  have ex: "\<exists>c\<in>set (task_completions example_db).
         task_id c = tid example_task \<and> completed_date c = getTodayDate (new_Date 2024 5 15)"
    unfolding today l by (simp add: example_task_def)
  from daily_completed_iff_fact_from_today [OF on_clock_2024_06_15 h2,
      of "task_completions example_db"] h3 ex
  have "isTaskCompleted example_task (task_completions example_db) (new_Date 2024 5 15)"
    by blast
  with on_clock_2024_06_15 h2 l n14 n15 today show ?thesis by blast
qed

text \<open>
  C1 as stated fails: on 2024-06-15 a daily task whose only fact is dated 2024-06-16 is
  completed, and has no fact for today's date.
\<close>

theorem daily_completed_without_fact_for_today:
  "frequency example_task = ''daily''
   \<and> getTodayDate (new_Date 2024 5 15) = ''2024-06-15''
   \<and> isTaskCompleted example_task [\<lparr>task_id = tid example_task, completed_date = ''2024-06-16''\<rparr>]
        (new_Date 2024 5 15)
   \<and> completed_date \<lparr>task_id = tid example_task, completed_date = ''2024-06-16''\<rparr>
       \<noteq> getTodayDate (new_Date 2024 5 15)"
proof -
  have h2: "frequency example_task = ''daily''" by (simp add: example_task_def)
  have today: "getTodayDate (new_Date 2024 5 15) = ''2024-06-15''"
    by (simp add: getTodayDate_def new_Date_2024_06_15 formatDate_2024_06_15)
  have p: "getPeriodStartDate example_task (new_Date 2024 5 15) = ''2024-06-15''"
    using getPeriodStartDate_daily [OF on_clock_2024_06_15 h2] today by simp
  have c: "isTaskCompleted example_task
             [\<lparr>task_id = tid example_task, completed_date = ''2024-06-16''\<rparr>] (new_Date 2024 5 15)"
    by (simp add: isTaskCompleted_def p string_ge_def)
  from h2 today c show ?thesis by simp
qed

text \<open>
  C2. For a weekly task with reset day R from 0 to 6 and a clock not before 1970, the string
  that \<^verbatim>\<open>getPeriodStartDate\<close> returns is the \<^verbatim>\<open>formatDate\<close> of one Date only, and that
  Date has weekday R, is not after today and is at most 6 days before today (today being
  the clock's own calendar day).
\<close>

theorem weekly_period_start:
  assumes "on_clock now" and "frequency t = ''weekly''" and "reset_day t = Some R"
    and "0 \<le> R" and "R \<le> 6"
  shows "new_Date (getFullYear now) (getMonth now) (getDate now) = now
       \<and> getPeriodStartDate t now = formatDate (weekly_periodStart (Some R) now)
       \<and> (\<forall>d. formatDate d = getPeriodStartDate t now \<longrightarrow> d = weekly_periodStart (Some R) now)
       \<and> getDay (weekly_periodStart (Some R) now) = R
       \<and> weekly_periodStart (Some R) now \<le> now
       \<and> now - weekly_periodStart (Some R) now \<le> 6"
proof -
  note f = weekly_periodStart_facts [OF assms]
  then have str: "getPeriodStartDate t now = formatDate (weekly_periodStart (Some R) now)"
    by blast
  have uniq: "\<forall>d. formatDate d = getPeriodStartDate t now \<longrightarrow> d = weekly_periodStart (Some R) now"
  proof (intro allI impI)
    fix d
    assume "formatDate d = getPeriodStartDate t now"
    with str have "formatDate d = formatDate (weekly_periodStart (Some R) now)" by simp
    then show "d = weekly_periodStart (Some R) now" by (rule formatDate_inj)
  qed
  from f uniq show ?thesis by blast
qed

theorem weekly_period_start_witness:
  "on_clock (new_Date 2024 5 15) \<and> frequency example_weekly_task = ''weekly''
   \<and> reset_day example_weekly_task = Some 0 \<and> (0::int) \<le> 0 \<and> (0::int) \<le> 6
   \<and> getTodayDate (new_Date 2024 5 15) = ''2024-06-15''
   \<and> getPeriodStartDate example_weekly_task (new_Date 2024 5 15) = ''2024-06-09''
   \<and> formatDate (new_Date 2024 5 9) = getPeriodStartDate example_weekly_task (new_Date 2024 5 15)
   \<and> new_Date 2024 5 9 = weekly_periodStart (Some 0) (new_Date 2024 5 15)
   \<and> getDay (new_Date 2024 5 9) = 0
   \<and> new_Date 2024 5 9 \<le> new_Date 2024 5 15
   \<and> new_Date 2024 5 15 - new_Date 2024 5 9 \<le> 6"
proof -
  let ?now = "new_Date 2024 5 15"
  have h2: "frequency example_weekly_task = ''weekly''" by (simp add: example_weekly_task_def)
  have h3: "reset_day example_weekly_task = Some 0" by (simp add: example_weekly_task_def)
  have h4: "(0::int) \<le> 0" and h5: "(0::int) \<le> 6" by simp_all
  note inst = weekly_period_start [OF on_clock_2024_06_15 h2 h3 h4 h5]
  note str0 = inst [THEN conjunct2, THEN conjunct1]
  note uniq = inst [THEN conjunct2, THEN conjunct2, THEN conjunct1]
  note rest = inst [THEN conjunct2, THEN conjunct2, THEN conjunct2]
  have today: "getTodayDate ?now = ''2024-06-15''"
    by (simp add: getTodayDate_def new_Date_2024_06_15 formatDate_2024_06_15)
  have p: "weekly_periodStart (Some 0) ?now = 19883"
    by (simp add: new_Date_2024_06_15 weekly_example_periodStart)
  have str: "getPeriodStartDate example_weekly_task ?now = ''2024-06-09''"
    using str0 by (simp only: p formatDate_2024_06_09)
  have fd: "formatDate (new_Date 2024 5 9) = getPeriodStartDate example_weekly_task ?now"
    by (simp add: str fields_2024_06_09 formatDate_2024_06_09)
  have same: "new_Date 2024 5 9 = weekly_periodStart (Some 0) ?now"
    by (rule uniq [rule_format, OF fd])
  have "getDay (new_Date 2024 5 9) = 0 \<and> new_Date 2024 5 9 \<le> ?now
        \<and> ?now - new_Date 2024 5 9 \<le> 6"
    unfolding same by (rule rest)
  with on_clock_2024_06_15 h2 h3 h4 h5 today str fd same show ?thesis by blast
qed

text \<open>
  C3. For a monthly task with reset day R from 1 to 28 and a clock not before 1970, the
  string that \<^verbatim>\<open>getPeriodStartDate\<close> returns is the \<^verbatim>\<open>formatDate\<close> of one Date only, and
  that Date has day of the month R, is not after today, and its following occurrence of day
  R (one month later) is after today. When today's day of the month is before R, the period
  starts in the month before, which from January is December of the year before.
\<close>

theorem monthly_period_start:
  assumes "on_clock now" and "frequency t = ''monthly''" and "reset_day t = Some R"
    and "1 \<le> R" and "R \<le> 28"
  shows "new_Date (getFullYear now) (getMonth now) (getDate now) = now
       \<and> getPeriodStartDate t now = formatDate (monthly_periodStart (Some R) now)
       \<and> (\<forall>d. formatDate d = getPeriodStartDate t now \<longrightarrow> d = monthly_periodStart (Some R) now)
       \<and> getDate (monthly_periodStart (Some R) now) = R
       \<and> monthly_periodStart (Some R) now \<le> now
       \<and> now < nextPeriodStart (monthly_periodStart (Some R) now) R
       \<and> getDate (nextPeriodStart (monthly_periodStart (Some R) now) R) = R
       \<and> (if R \<le> getDate now
          then getFullYear (monthly_periodStart (Some R) now) = getFullYear now
             \<and> getMonth (monthly_periodStart (Some R) now) = getMonth now
          else if getMonth now = 0
          then getFullYear (monthly_periodStart (Some R) now) = getFullYear now - 1
             \<and> getMonth (monthly_periodStart (Some R) now) = 11
          else getFullYear (monthly_periodStart (Some R) now) = getFullYear now
             \<and> getMonth (monthly_periodStart (Some R) now) = getMonth now - 1)"
proof -
  note f = monthly_periodStart_facts [OF assms]
  then have str: "getPeriodStartDate t now = formatDate (monthly_periodStart (Some R) now)"
    by blast
  have uniq: "\<forall>d. formatDate d = getPeriodStartDate t now \<longrightarrow> d = monthly_periodStart (Some R) now"
  proof (intro allI impI)
    fix d
    assume "formatDate d = getPeriodStartDate t now"
    with str have "formatDate d = formatDate (monthly_periodStart (Some R) now)" by simp
    then show "d = monthly_periodStart (Some R) now" by (rule formatDate_inj)
  qed
  from f uniq show ?thesis by blast
qed

theorem monthly_period_start_witness:
  "on_clock (new_Date 2024 0 5) \<and> frequency example_monthly_task = ''monthly''
   \<and> reset_day example_monthly_task = Some 20 \<and> (1::int) \<le> 20 \<and> (20::int) \<le> 28
   \<and> getPeriodStartDate example_monthly_task (new_Date 2024 0 5) = ''2023-12-20''
   \<and> formatDate (new_Date 2023 11 20) = getPeriodStartDate example_monthly_task (new_Date 2024 0 5)
   \<and> new_Date 2023 11 20 = monthly_periodStart (Some 20) (new_Date 2024 0 5)
   \<and> getDate (new_Date 2023 11 20) = 20
   \<and> getMonth (new_Date 2023 11 20) = 11
   \<and> getFullYear (new_Date 2023 11 20) = 2023
   \<and> new_Date 2023 11 20 \<le> new_Date 2024 0 5
   \<and> new_Date 2024 0 5 < nextPeriodStart (new_Date 2023 11 20) 20"
proof -
  let ?now = "new_Date 2024 0 5"
  have h2: "frequency example_monthly_task = ''monthly''" by (simp add: example_monthly_task_def)
  have h3: "reset_day example_monthly_task = Some 20" by (simp add: example_monthly_task_def)
  have h4: "(1::int) \<le> 20" and h5: "(20::int) \<le> 28" by simp_all
  note inst = monthly_period_start [OF on_clock_2024_01_05 h2 h3 h4 h5]
  note str0 = inst [THEN conjunct2, THEN conjunct1]
  note uniq = inst [THEN conjunct2, THEN conjunct2, THEN conjunct1]
  note rest = inst [THEN conjunct2, THEN conjunct2, THEN conjunct2]
  have str: "getPeriodStartDate example_monthly_task ?now = ''2023-12-20''"
    using str0 by (simp only: monthly_example_periodStart formatDate_2023_12_20)
  have fd: "formatDate (new_Date 2023 11 20) = getPeriodStartDate example_monthly_task ?now"
    by (simp add: str fields_2023_12_20 formatDate_2023_12_20)
  have same: "new_Date 2023 11 20 = monthly_periodStart (Some 20) ?now"
    by (rule uniq [rule_format, OF fd])
  from rest have "getDate (new_Date 2023 11 20) = 20
       \<and> new_Date 2023 11 20 \<le> ?now
       \<and> ?now < nextPeriodStart (new_Date 2023 11 20) 20
       \<and> getFullYear (new_Date 2023 11 20) = 2023
       \<and> getMonth (new_Date 2023 11 20) = 11"
    unfolding same [symmetric] by (simp add: fields_2024_01_05)
  with on_clock_2024_01_05 h2 h3 h4 h5 str fd same show ?thesis by blast
qed

text \<open>
  C4. Stated: for a one-time task, the status that the list of tasks and the toggle return
  is true iff the task has at least one completion record, however old. The code departs
  from it: \<^verbatim>\<open>getUserCompletions\<close> only fetches the facts from the retention cutoff on. On
  2024-06-15 the one-time task 4 has a record dated 2024-01-10 in the ledger;
  \<^verbatim>\<open>isTaskCompleted\<close> on the whole ledger is true (the period starts at 1970-01-01), yet the
  list of tasks shows \<open>completed = 0\<close>, and a toggle that removes today's record answers
  \<open>completed = 0\<close> with the old record still in the ledger.
\<close>

theorem one_time_old_completion_not_counted:
  "frequency example_onetime_task = ''one-time''
   \<and> task_completions example_onetime_db = [\<lparr>task_id = 4, completed_date = ''2024-01-10''\<rparr>]
   \<and> getPeriodStartDate example_onetime_task (new_Date 2024 5 15) = ''1970-01-01''
   \<and> isTaskCompleted example_onetime_task (task_completions example_onetime_db) (new_Date 2024 5 15)
   \<and> getUserCompletions example_onetime_db ''u1'' None (new_Date 2024 5 15) = []
   \<and> get_tasks example_onetime_db ''u1'' None (new_Date 2024 5 15)
       = [(example_onetime_task, ''Chores'', 0)]
   \<and> toggle (example_onetime_db\<lparr>task_completions :=
               [\<lparr>task_id = 4, completed_date = ''2024-01-10''\<rparr>,
                \<lparr>task_id = 4, completed_date = ''2024-06-15''\<rparr>]\<rparr>) ''u1'' 4 (new_Date 2024 5 15)
       = (example_onetime_db, Inr (example_onetime_task, 0))"
proof -
  let ?now = "new_Date 2024 5 15"
  let ?db2 = "example_onetime_db\<lparr>task_completions :=
               [\<lparr>task_id = 4, completed_date = ''2024-01-10''\<rparr>,
                \<lparr>task_id = 4, completed_date = ''2024-06-15''\<rparr>]\<rparr>"
  have fr: "frequency example_onetime_task = ''one-time''" by (simp add: example_onetime_task_def)
  have l: "task_completions example_onetime_db = [\<lparr>task_id = 4, completed_date = ''2024-01-10''\<rparr>]"
    by (simp add: example_onetime_db_def SQL_Database_def)
  have p: "getPeriodStartDate example_onetime_task ?now = ''1970-01-01''"
    by (rule getPeriodStartDate_one_time [OF fr])
  have c: "isTaskCompleted example_onetime_task (task_completions example_onetime_db) ?now"
    unfolding isTaskCompleted_def p l by (simp add: string_ge_def example_onetime_task_def)
  have u: "getUserCompletions example_onetime_db ''u1'' None ?now = []"
    by (simp add: getUserCompletions_def cutoff_2024_06_15 l string_ge_def)
  have g: "get_tasks example_onetime_db ''u1'' None ?now = [(example_onetime_task, ''Chores'', 0)]"
    unfolding get_tasks_def u
    by (simp add: example_onetime_db_def SQL_Database_def example_onetime_task_def isTaskCompleted_def)
  have today: "getTodayDate ?now = ''2024-06-15''"
    by (simp add: getTodayDate_def new_Date_2024_06_15 formatDate_2024_06_15)
  have found: "queryOne (filter (\<lambda>t. tid t = 4 \<and> user_id t = ''u1'') (tasks ?db2))
                 = Some example_onetime_task"
    by (simp add: example_onetime_db_def SQL_Database_def example_onetime_task_def queryOne_def)
  have d: "fst (toggle ?db2 ''u1'' 4 ?now) = example_onetime_db"
    unfolding toggle_db [OF found] today
    by (simp add: delete_completion_def example_onetime_db_def SQL_Database_def)
  have r: "snd (toggle ?db2 ''u1'' 4 ?now) = Inr (example_onetime_task, 0)"
    unfolding toggle_response [OF found] d u by (simp add: isTaskCompleted_def)
  have t: "toggle ?db2 ''u1'' 4 ?now = (example_onetime_db, Inr (example_onetime_task, 0))"
    using d r by (simp add: prod_eq_iff)
  from fr l p c u g t show ?thesis by blast
qed

text \<open>
  C5. For a task of the requesting user, two toggles on the same day give back the derived
  status the task had before the first: the ledger holds the same facts again, the second
  response reports the status from before the first toggle, and the list of tasks would show
  it too.
\<close>

theorem toggle_twice_restores_status:
  assumes "queryOne (filter (\<lambda>t. tid t = i \<and> user_id t = u) (tasks db)) = Some t"
  shows "isTaskCompleted t
           (getUserCompletions (fst (toggle (fst (toggle db u i now)) u i now)) u None now) now
         = isTaskCompleted t (getUserCompletions db u None now) now
       \<and> snd (toggle (fst (toggle db u i now)) u i now)
         = Inr (t, if isTaskCompleted t (getUserCompletions db u None now) now then 1 else 0)
       \<and> set (task_completions (fst (toggle (fst (toggle db u i now)) u i now)))
         = set (task_completions db)
       \<and> tasks (fst (toggle (fst (toggle db u i now)) u i now)) = tasks db"
proof -
  let ?db1 = "fst (toggle db u i now)"
  let ?db2 = "fst (toggle ?db1 u i now)"
  have t1: "tasks ?db1 = tasks db" using toggle_tasks [of db u i now] by simp
  have t2: "tasks ?db2 = tasks db" using toggle_tasks [of ?db1 u i now] t1 by simp
  have found1: "queryOne (filter (\<lambda>t. tid t = i \<and> user_id t = u) (tasks ?db1)) = Some t"
    using assms t1 by simp
  have s: "set (task_completions ?db2) = set (task_completions db)"
    by (rule toggle_twice_set [OF assms])
  have "set (getUserCompletions ?db2 u None now) = set (getUserCompletions db u None now)"
    by (rule getUserCompletions_set_cong [OF s t2])
  then have st: "isTaskCompleted t (getUserCompletions ?db2 u None now) now
               = isTaskCompleted t (getUserCompletions db u None now) now"
    by (rule isTaskCompleted_set_cong)
  have "snd (toggle ?db1 u i now)
        = Inr (t, if isTaskCompleted t (getUserCompletions ?db2 u None now) now then 1 else 0)"
    by (rule toggle_response [OF found1])
  with st s t2 show ?thesis by simp
qed

theorem toggle_twice_restores_status_witness:
  "queryOne (filter (\<lambda>t. tid t = 1 \<and> user_id t = ''u1'') (tasks example_db)) = Some example_task
   \<and> isTaskCompleted example_task
        (getUserCompletions
           (fst (toggle (fst (toggle example_db ''u1'' 1 (new_Date 2024 5 15))) ''u1'' 1
                   (new_Date 2024 5 15))) ''u1'' None (new_Date 2024 5 15)) (new_Date 2024 5 15)
      = isTaskCompleted example_task
          (getUserCompletions example_db ''u1'' None (new_Date 2024 5 15)) (new_Date 2024 5 15)"
  using toggle_twice_restores_status [OF example_task_found, of "new_Date 2024 5 15"]
    example_task_found by blast

text \<open>
  C6. Recording a completion fact (task, date) that is already in the ledger leaves the state
  of the store as it is and is not an error (\<open>Inr\<close>); recording a fact twice gives the state
  that recording it once gives; unrecording a fact that is not in the ledger leaves the state
  as it is.
\<close>

theorem ledger_record_unrecord_idempotent:
  assumes "list_ex (\<lambda>c. task_id c = i \<and> completed_date c = d) (task_completions db)"
    and "\<not> list_ex (\<lambda>c. task_id c = j \<and> completed_date c = e) (task_completions db)"
  shows "insert_completion OR_IGNORE i d db = Inr db
       \<and> (\<exists>db1. insert_completion OR_IGNORE j e db = Inr db1
                \<and> insert_completion OR_IGNORE j e db1 = Inr db1)
       \<and> delete_completion j e db = db"
proof -
  have a: "insert_completion OR_IGNORE i d db = Inr db"
    using assms(1) by (simp add: insert_completion_def)
  let ?db1 = "db\<lparr>task_completions := task_completions db @ [\<lparr>task_id = j, completed_date = e\<rparr>]\<rparr>"
  have b1: "insert_completion OR_IGNORE j e db = Inr ?db1"
    using assms(2) by (simp add: insert_completion_def)
  have b2: "insert_completion OR_IGNORE j e ?db1 = Inr ?db1"
    by (simp add: insert_completion_def)
  have "filter (\<lambda>c. \<not> (task_id c = j \<and> completed_date c = e)) (task_completions db)
          = task_completions db"
    using assms(2) by (simp add: list_ex_iff filter_id_conv)
  then have c: "delete_completion j e db = db" by (simp add: delete_completion_def)
  from a b1 b2 c show ?thesis by blast
qed

theorem ledger_record_unrecord_idempotent_witness:
  "list_ex (\<lambda>c. task_id c = 1 \<and> completed_date c = ''2024-06-15'') (task_completions example_db)
   \<and> \<not> list_ex (\<lambda>c. task_id c = 1 \<and> completed_date c = ''2024-06-16'') (task_completions example_db)
   \<and> insert_completion OR_IGNORE 1 ''2024-06-15'' example_db = Inr example_db
   \<and> delete_completion 1 ''2024-06-16'' example_db = example_db"
proof -
  have h1: "list_ex (\<lambda>c. task_id c = 1 \<and> completed_date c = ''2024-06-15'')
              (task_completions example_db)"
    by (simp add: example_db_def SQL_Database_def)
  have h2: "\<not> list_ex (\<lambda>c. task_id c = 1 \<and> completed_date c = ''2024-06-16'')
              (task_completions example_db)"
    by (simp add: example_db_def SQL_Database_def)
  from ledger_record_unrecord_idempotent [OF h1 h2] h1 h2 show ?thesis by blast
qed

text \<open>
  C7 (as amended). The retention sweep keeps exactly the facts whose date string is not
  below the cutoff and deletes the others; the other tables are untouched. The cutoff is
  the \<^verbatim>\<open>formatDate\<close> of one Date only: the clock's date with the month set three back. When
  today's day of the month exists in the month three calendar months earlier (always for
  the days 1 to 28), the cutoff is that day of that month; otherwise the days beyond the end
  of that month are carried over, and the cutoff is a day of the month after it, two
  calendar months before today. With today = 2024-06-15 the cutoff is 2024-03-15, a fact
  dated 2024-03-14 is deleted and a fact dated 2024-03-15 stays.
\<close>

theorem retention_sweep_exact:
  "task_completions (cleanupOldCompletions db now)
     = filter (\<lambda>c. string_ge (completed_date c) (getCompletionCutoffDate now)) (task_completions db)
   \<and> (\<forall>c\<in>set (task_completions db).
         string_lt (completed_date c) (getCompletionCutoffDate now)
           \<longrightarrow> c \<notin> set (task_completions (cleanupOldCompletions db now)))
   \<and> (\<forall>c\<in>set (task_completions db).
         string_ge (completed_date c) (getCompletionCutoffDate now)
           \<longrightarrow> c \<in> set (task_completions (cleanupOldCompletions db now)))
   \<and> set (task_completions (cleanupOldCompletions db now)) \<subseteq> set (task_completions db)
   \<and> tasks (cleanupOldCompletions db now) = tasks db
   \<and> categories (cleanupOldCompletions db now) = categories db
   \<and> getCompletionCutoffDate now = formatDate (setMonth now (getMonth now - 3))
   \<and> (\<forall>d. formatDate d = getCompletionCutoffDate now \<longrightarrow> d = setMonth now (getMonth now - 3))
   \<and> 1 \<le> getDate now \<and> getDate now \<le> 31
   \<and> 28 \<le> DaysInMonth (getFullYear now) (getMonth now - 3)
   \<and> DaysInMonth (getFullYear now) (getMonth now - 3) \<le> 31
   \<and> (getDate now \<le> DaysInMonth (getFullYear now) (getMonth now - 3) \<longrightarrow>
        getDate (setMonth now (getMonth now - 3)) = getDate now
        \<and> 12 * getFullYear (setMonth now (getMonth now - 3)) + getMonth (setMonth now (getMonth now - 3))
          = 12 * getFullYear now + getMonth now - 3)
   \<and> (DaysInMonth (getFullYear now) (getMonth now - 3) < getDate now \<longrightarrow>
        getDate (setMonth now (getMonth now - 3))
          = getDate now - DaysInMonth (getFullYear now) (getMonth now - 3)
        \<and> 12 * getFullYear (setMonth now (getMonth now - 3)) + getMonth (setMonth now (getMonth now - 3))
          = 12 * getFullYear now + getMonth now - 2)
   \<and> getCompletionCutoffDate (new_Date 2024 5 15) = ''2024-03-15''
   \<and> task_completions (cleanupOldCompletions example_sweep_db (new_Date 2024 5 15))
       = [\<lparr>task_id = 1, completed_date = ''2024-03-15''\<rparr>]"
proof -
  define Y where "Y = YearFromTime now"
  define m where "m = MonthFromTime now - 3"
  define D where "D = DateFromTime now"
  define c where "c = setMonth now (getMonth now - 3)"
  have cm: "c = MakeDay Y m D" by (simp add: c_def setMonth_def getMonth_def Y_def m_def D_def)
  have D: "1 \<le> D" "D \<le> 31" using DateFromTime_range [of now] by (simp_all add: D_def)
  have len: "28 \<le> DaysInMonth Y m" "DaysInMonth Y m \<le> 31"
    using DaysInMonth_range [of Y m] by simp_all
  have ix: "12 * (Y + k div 12) + k mod 12 = 12 * Y + k" for k :: int
    by (simp add: algebra_simps)
  have a: "task_completions (cleanupOldCompletions db now)
     = filter (\<lambda>c. string_ge (completed_date c) (getCompletionCutoffDate now)) (task_completions db)"
    by (rule cleanupOldCompletions_filter)
  have b: "tasks (cleanupOldCompletions db now) = tasks db"
    "categories (cleanupOldCompletions db now) = categories db"
    by (simp_all add: cleanupOldCompletions_def)
  have str: "getCompletionCutoffDate now = formatDate c"
    by (simp add: getCompletionCutoffDate_def COMPLETION_HISTORY_MONTHS_def c_def)
  have uniq: "\<forall>d. formatDate d = getCompletionCutoffDate now \<longrightarrow> d = c"
  proof (intro allI impI)
    fix d
    assume "formatDate d = getCompletionCutoffDate now"
    with str have "formatDate d = formatDate c" by simp
    then show "d = c" by (rule formatDate_inj)
  qed
  have inside: "DateFromTime c = D \<and> 12 * YearFromTime c + MonthFromTime c = 12 * Y + m"
    if "D \<le> DaysInMonth Y m"
  proof -
    note f = MakeDay_fields_in_month [OF D(1) that]
    show ?thesis unfolding cm f by (simp add: ix)
  qed
  have beyond: "DateFromTime c = D - DaysInMonth Y m
              \<and> 12 * YearFromTime c + MonthFromTime c = 12 * Y + m + 1"
    if "DaysInMonth Y m < D"
  proof -
    have sh: "c = MakeDay Y (m + 1) (D - DaysInMonth Y m)"
      unfolding cm by (rule MakeDay_overflow)
    have r: "1 \<le> D - DaysInMonth Y m" "D - DaysInMonth Y m \<le> 28"
      using that D len by simp_all
    note f = MakeDay_fields [OF r, of Y "m + 1"]
    show ?thesis unfolding sh f using ix [of "m + 1"] by simp
  qed
  have e: "task_completions (cleanupOldCompletions example_sweep_db (new_Date 2024 5 15))
       = [\<lparr>task_id = 1, completed_date = ''2024-03-15''\<rparr>]"
    unfolding cleanupOldCompletions_filter cutoff_2024_06_15
    by (simp add: example_sweep_db_def SQL_Database_def string_ge_def)
  have s1: "\<forall>c\<in>set (task_completions db).
         string_lt (completed_date c) (getCompletionCutoffDate now)
           \<longrightarrow> c \<notin> set (task_completions (cleanupOldCompletions db now))"
    unfolding a by (simp add: string_ge_def)
  have s2: "\<forall>c\<in>set (task_completions db).
         string_ge (completed_date c) (getCompletionCutoffDate now)
           \<longrightarrow> c \<in> set (task_completions (cleanupOldCompletions db now))"
    unfolding a by simp
  have s3: "set (task_completions (cleanupOldCompletions db now)) \<subseteq> set (task_completions db)"
    unfolding a by auto
  have rng: "1 \<le> getDate now \<and> getDate now \<le> 31
      \<and> 28 \<le> DaysInMonth (getFullYear now) (getMonth now - 3)
      \<and> DaysInMonth (getFullYear now) (getMonth now - 3) \<le> 31"
    using D len by (simp add: getDate_def getFullYear_def getMonth_def Y_def D_def m_def)
  have cal1: "getDate now \<le> DaysInMonth (getFullYear now) (getMonth now - 3) \<longrightarrow>
        getDate (setMonth now (getMonth now - 3)) = getDate now
        \<and> 12 * getFullYear (setMonth now (getMonth now - 3)) + getMonth (setMonth now (getMonth now - 3))
          = 12 * getFullYear now + getMonth now - 3"
    using inside by (simp add: getDate_def getFullYear_def getMonth_def c_def Y_def D_def m_def)
  have cal2: "DaysInMonth (getFullYear now) (getMonth now - 3) < getDate now \<longrightarrow>
        getDate (setMonth now (getMonth now - 3))
          = getDate now - DaysInMonth (getFullYear now) (getMonth now - 3)
        \<and> 12 * getFullYear (setMonth now (getMonth now - 3)) + getMonth (setMonth now (getMonth now - 3))
          = 12 * getFullYear now + getMonth now - 2"
    using beyond by (simp add: getDate_def getFullYear_def getMonth_def c_def Y_def D_def m_def)
  from str uniq have su: "getCompletionCutoffDate now = formatDate (setMonth now (getMonth now - 3))
     \<and> (\<forall>d. formatDate d = getCompletionCutoffDate now \<longrightarrow> d = setMonth now (getMonth now - 3))"
    by (simp add: c_def)
  from a s1 s2 s3 b su rng cal1 cal2 e cutoff_2024_06_15 show ?thesis by blast
qed

theorem retention_sweep_exact_witness:
  "\<lparr>task_id = 1, completed_date = ''2024-03-14''\<rparr> \<in> set (task_completions example_sweep_db)
   \<and> string_lt ''2024-03-14'' (getCompletionCutoffDate (new_Date 2024 5 15))
   \<and> \<lparr>task_id = 1, completed_date = ''2024-03-14''\<rparr>
       \<notin> set (task_completions (cleanupOldCompletions example_sweep_db (new_Date 2024 5 15)))
   \<and> \<lparr>task_id = 1, completed_date = ''2024-03-15''\<rparr> \<in> set (task_completions example_sweep_db)
   \<and> string_ge ''2024-03-15'' (getCompletionCutoffDate (new_Date 2024 5 15))
   \<and> \<lparr>task_id = 1, completed_date = ''2024-03-15''\<rparr>
       \<in> set (task_completions (cleanupOldCompletions example_sweep_db (new_Date 2024 5 15)))
   \<and> formatDate (new_Date 2024 2 15) = getCompletionCutoffDate (new_Date 2024 5 15)
   \<and> new_Date 2024 2 15 = setMonth (new_Date 2024 5 15) (getMonth (new_Date 2024 5 15) - 3)
   \<and> getDate (new_Date 2024 5 15)
       \<le> DaysInMonth (getFullYear (new_Date 2024 5 15)) (getMonth (new_Date 2024 5 15) - 3)
   \<and> getDate (setMonth (new_Date 2024 5 15) (getMonth (new_Date 2024 5 15) - 3)) = 15
   \<and> DaysInMonth (getFullYear (new_Date 2024 4 31)) (getMonth (new_Date 2024 4 31) - 3)
       < getDate (new_Date 2024 4 31)
   \<and> getDate (setMonth (new_Date 2024 4 31) (getMonth (new_Date 2024 4 31) - 3)) = 2
   \<and> 12 * getFullYear (setMonth (new_Date 2024 4 31) (getMonth (new_Date 2024 4 31) - 3))
        + getMonth (setMonth (new_Date 2024 4 31) (getMonth (new_Date 2024 4 31) - 3))
      = 12 * 2024 + 4 - 2"
proof -
  let ?now = "new_Date 2024 5 15"
  let ?end = "new_Date 2024 4 31"
  let ?f14 = "\<lparr>task_id = 1, completed_date = ''2024-03-14''\<rparr>"
  let ?f15 = "\<lparr>task_id = 1, completed_date = ''2024-03-15''\<rparr>"
  note sweep = retention_sweep_exact [of example_sweep_db ?now]
  note sweep_end = retention_sweep_exact [of example_sweep_db ?end]
  have m14: "?f14 \<in> set (task_completions example_sweep_db)"
    and m15: "?f15 \<in> set (task_completions example_sweep_db)"
    by (simp_all add: example_sweep_db_def SQL_Database_def)
  have lt: "string_lt (completed_date ?f14) (getCompletionCutoffDate ?now)"
    and ge: "string_ge (completed_date ?f15) (getCompletionCutoffDate ?now)"
    by (simp_all add: cutoff_2024_06_15 string_ge_def)
  from sweep m14 lt have gone: "?f14 \<notin> set (task_completions (cleanupOldCompletions example_sweep_db ?now))"
    by blast
  from sweep m15 ge have kept: "?f15 \<in> set (task_completions (cleanupOldCompletions example_sweep_db ?now))"
    by blast
  have fd: "formatDate (new_Date 2024 2 15) = getCompletionCutoffDate ?now"
    by (simp add: cutoff_2024_06_15 fields_2024_03_15 formatDate_fields Number_toString_def
        padStart_def digits.simps)
  note uniq = sweep [THEN conjunct2, THEN conjunct2, THEN conjunct2, THEN conjunct2,
      THEN conjunct2, THEN conjunct2, THEN conjunct2, THEN conjunct1]
  have same: "new_Date 2024 2 15 = setMonth ?now (getMonth ?now - 3)"
    by (rule uniq [rule_format, OF fd])
  have day: "getDate ?now = 15" "getFullYear ?now = 2024" "getMonth ?now = 5"
    by (simp_all add: new_Date_2024_06_15 getDate_def getFullYear_def getMonth_def
        fields_2024_06_15)
  have fits: "getDate ?now \<le> DaysInMonth (getFullYear ?now) (getMonth ?now - 3)"
    by (simp add: day DaysInMonth_2024)
  note cal = sweep [THEN conjunct2, THEN conjunct2, THEN conjunct2, THEN conjunct2,
      THEN conjunct2, THEN conjunct2, THEN conjunct2, THEN conjunct2]
  note cal_end = sweep_end [THEN conjunct2, THEN conjunct2, THEN conjunct2, THEN conjunct2,
      THEN conjunct2, THEN conjunct2, THEN conjunct2, THEN conjunct2]
  from cal fits have d15: "getDate (setMonth ?now (getMonth ?now - 3)) = 15" by (simp add: day)
  have dayend: "getDate ?end = 31" "getFullYear ?end = 2024" "getMonth ?end = 4"
    by (simp_all add: fields_2024_05_31 getDate_def getFullYear_def getMonth_def)
  have over: "DaysInMonth (getFullYear ?end) (getMonth ?end - 3) < getDate ?end"
    by (simp add: dayend DaysInMonth_2024)
  with cal_end have d2: "getDate (setMonth ?end (getMonth ?end - 3)) = 2"
    and ix: "12 * getFullYear (setMonth ?end (getMonth ?end - 3))
               + getMonth (setMonth ?end (getMonth ?end - 3)) = 12 * 2024 + 4 - 2"
    by (simp_all add: dayend DaysInMonth_2024)
  from m14 m15 lt ge gone kept fd same fits d15 over d2 ix show ?thesis by simp
qed

text \<open>
  C7 as stated fails at the end of a month. On 2024-05-31 the month three calendar months
  earlier is February, which has 29 days: the cutoff is 2024-03-02, a day of March, and the
  sweep deletes the facts dated 2024-02-29 and 2024-03-01.
\<close>

theorem retention_cutoff_carried_past_month_end:
  "getTodayDate (new_Date 2024 4 31) = ''2024-05-31''
   \<and> getMonth (new_Date 2024 4 31) = 4
   \<and> getCompletionCutoffDate (new_Date 2024 4 31) = ''2024-03-02''
   \<and> getMonth (setMonth (new_Date 2024 4 31) (getMonth (new_Date 2024 4 31) - 3)) = 2
   \<and> task_completions example_monthend_db
       = [\<lparr>task_id = 1, completed_date = ''2024-02-29''\<rparr>,
          \<lparr>task_id = 1, completed_date = ''2024-03-01''\<rparr>,
          \<lparr>task_id = 1, completed_date = ''2024-03-02''\<rparr>]
   \<and> task_completions (cleanupOldCompletions example_monthend_db (new_Date 2024 4 31))
       = [\<lparr>task_id = 1, completed_date = ''2024-03-02''\<rparr>]"
proof -
  let ?end = "new_Date 2024 4 31"
  have today: "getTodayDate ?end = ''2024-05-31''"
    by (simp add: getTodayDate_def fields_2024_05_31 formatDate_2024_05_31)
  have mo: "getMonth ?end = 4" by (simp add: getMonth_def fields_2024_05_31)
  have cm: "getMonth (setMonth ?end (getMonth ?end - 3)) = 2"
    using setMonth_2024_05_31 by (simp add: fields_2024_05_31 getMonth_def fields_2024_03_02)
  have l: "task_completions example_monthend_db
       = [\<lparr>task_id = 1, completed_date = ''2024-02-29''\<rparr>,
          \<lparr>task_id = 1, completed_date = ''2024-03-01''\<rparr>,
          \<lparr>task_id = 1, completed_date = ''2024-03-02''\<rparr>]"
    by (simp add: example_monthend_db_def SQL_Database_def)
  have sw: "task_completions (cleanupOldCompletions example_monthend_db ?end)
       = [\<lparr>task_id = 1, completed_date = ''2024-03-02''\<rparr>]"
    unfolding cleanupOldCompletions_filter cutoff_2024_05_31 l by (simp add: string_ge_def)
  from today mo cutoff_2024_05_31 cm l sw show ?thesis by blast
qed

text \<open>
  C8. Stated: deleting a category removes the category, its tasks and the completion
  records of those tasks. The code departs from it: the handler deletes the tasks and the
  category by two statements and leaves the completions to \<^verbatim>\<open>ON DELETE CASCADE\<close>, which the
  connection does not enforce. After deleting category 1, task 1 is gone and both of its
  completion records are still in the store; \<^verbatim>\<open>DELETE /api/tasks/:id\<close> leaves them behind in
  the same way.
\<close>

theorem delete_category_leaves_completions:
  "foreign_keys example_db = False
   \<and> tasks example_db = [example_task] \<and> category_id example_task = 1
   \<and> delete_category example_db ''u1'' 1
       = (\<lparr>categories = [], tasks = [],
           task_completions = [\<lparr>task_id = tid example_task, completed_date = ''2024-06-14''\<rparr>,
                               \<lparr>task_id = tid example_task, completed_date = ''2024-06-15''\<rparr>],
           foreign_keys = False\<rparr>, Inr ())
   \<and> delete_task example_db ''u1'' 1
       = (\<lparr>categories = [\<lparr>cat_id = 1, cat_user_id = ''u1'', cat_name = ''Chores''\<rparr>], tasks = [],
           task_completions = [\<lparr>task_id = tid example_task, completed_date = ''2024-06-14''\<rparr>,
                               \<lparr>task_id = tid example_task, completed_date = ''2024-06-15''\<rparr>],
           foreign_keys = False\<rparr>, Inr ())"
proof -
  have a: "foreign_keys example_db = False" "tasks example_db = [example_task]"
    "category_id example_task = 1"
    by (simp_all add: example_db_def SQL_Database_def example_task_def)
  have b: "delete_category example_db ''u1'' 1
       = (\<lparr>categories = [], tasks = [],
           task_completions = [\<lparr>task_id = tid example_task, completed_date = ''2024-06-14''\<rparr>,
                               \<lparr>task_id = tid example_task, completed_date = ''2024-06-15''\<rparr>],
           foreign_keys = False\<rparr>, Inr ())"
    by (simp add: delete_category_def delete_tasks_def delete_categories_def queryOne_def
        example_db_def SQL_Database_def example_task_def)
  have c: "delete_task example_db ''u1'' 1
       = (\<lparr>categories = [\<lparr>cat_id = 1, cat_user_id = ''u1'', cat_name = ''Chores''\<rparr>], tasks = [],
           task_completions = [\<lparr>task_id = tid example_task, completed_date = ''2024-06-14''\<rparr>,
                               \<lparr>task_id = tid example_task, completed_date = ''2024-06-15''\<rparr>],
           foreign_keys = False\<rparr>, Inr ())"
    by (simp add: delete_task_def delete_tasks_def queryOne_def
        example_db_def SQL_Database_def example_task_def)
  from a b c show ?thesis by blast
qed

text \<open>
  C9. When the task has a completion fact for today, the toggle deletes the facts of that
  task dated today and nothing else: the ledger afterwards is the ledger before without them,
  in the same order, so every fact of the task with another date and every fact of another
  task is still there, no fact is added, and the other two tables are as before.
\<close>

theorem toggle_off_deletes_only_today:
  assumes "queryOne (filter (\<lambda>t. tid t = i \<and> user_id t = u) (tasks db)) = Some t"
    and "list_ex (\<lambda>c. task_id c = i \<and> completed_date c = getTodayDate now) (task_completions db)"
  shows "task_completions (fst (toggle db u i now)) =
           filter (\<lambda>c. \<not> (task_id c = i \<and> completed_date c = getTodayDate now)) (task_completions db)
       \<and> (\<forall>c \<in> set (task_completions db).
             task_id c \<noteq> i \<or> completed_date c \<noteq> getTodayDate now
               \<longrightarrow> c \<in> set (task_completions (fst (toggle db u i now))))
       \<and> set (task_completions (fst (toggle db u i now))) \<subseteq> set (task_completions db)
       \<and> tasks (fst (toggle db u i now)) = tasks db
       \<and> categories (fst (toggle db u i now)) = categories db"
proof -
  have l: "task_completions (fst (toggle db u i now)) =
           filter (\<lambda>c. \<not> (task_id c = i \<and> completed_date c = getTodayDate now)) (task_completions db)"
    using assms(2) by (simp add: toggle_db [OF assms(1)] delete_completion_def)
  show ?thesis unfolding l using toggle_tasks [of db u i now] by auto
qed

theorem toggle_off_deletes_only_today_witness:
  "queryOne (filter (\<lambda>t. tid t = 1 \<and> user_id t = ''u1'') (tasks example_db)) = Some example_task
   \<and> list_ex (\<lambda>c. task_id c = 1 \<and> completed_date c = getTodayDate (new_Date 2024 5 15))
        (task_completions example_db)
   \<and> task_completions (fst (toggle example_db ''u1'' 1 (new_Date 2024 5 15))) =
        [\<lparr>task_id = 1, completed_date = ''2024-06-14''\<rparr>]"
proof -
  have today: "getTodayDate (new_Date 2024 5 15) = ''2024-06-15''"
    by (simp add: getTodayDate_def new_Date_2024_06_15 formatDate_2024_06_15)
  have h2: "list_ex (\<lambda>c. task_id c = 1 \<and> completed_date c = getTodayDate (new_Date 2024 5 15))
              (task_completions example_db)"
    unfolding today by (simp add: example_db_def SQL_Database_def)
  have "task_completions (fst (toggle example_db ''u1'' 1 (new_Date 2024 5 15))) =
          filter (\<lambda>c. \<not> (task_id c = 1 \<and> completed_date c = getTodayDate (new_Date 2024 5 15)))
            (task_completions example_db)"
    using toggle_off_deletes_only_today [OF example_task_found h2] by blast
  also have "\<dots> = [\<lparr>task_id = 1, completed_date = ''2024-06-14''\<rparr>]"
    unfolding today by (simp add: example_db_def SQL_Database_def)
  finally show ?thesis using example_task_found h2 by blast
qed

text \<open>
  C10. A monthly reset day from 29 to 31 can give a period start that is not on that day of
  the month and lies after today. On 2023-03-01 with reset day 30 the monthly branch builds
  February 30, which the Date normalises to 2023-03-02: its day of the month is 2, it is
  after today, and the task is not completed whatever facts dated up to today the ledger
  holds; a toggle on that day records today's fact and still answers \<open>completed = 0\<close>.
\<close>

theorem monthly_reset_day_30_starts_after_today:
  "on_clock (new_Date 2023 2 1)
   \<and> frequency example_monthly30_task = ''monthly''
   \<and> reset_day example_monthly30_task = Some 30
   \<and> getTodayDate (new_Date 2023 2 1) = ''2023-03-01''
   \<and> getPeriodStartDate example_monthly30_task (new_Date 2023 2 1)
       = formatDate (monthly_periodStart (Some 30) (new_Date 2023 2 1))
   \<and> getPeriodStartDate example_monthly30_task (new_Date 2023 2 1) = ''2023-03-02''
   \<and> getDate (monthly_periodStart (Some 30) (new_Date 2023 2 1)) = 2
   \<and> new_Date 2023 2 1 < monthly_periodStart (Some 30) (new_Date 2023 2 1)
   \<and> (\<forall>cs. (\<forall>c\<in>set cs. \<not> string_lt (getTodayDate (new_Date 2023 2 1)) (completed_date c))
            \<longrightarrow> \<not> isTaskCompleted example_monthly30_task cs (new_Date 2023 2 1))
   \<and> toggle example_monthly30_db ''u1'' 5 (new_Date 2023 2 1)
       = (example_monthly30_db\<lparr>task_completions := [\<lparr>task_id = 5, completed_date = ''2023-03-01''\<rparr>]\<rparr>,
          Inr (example_monthly30_task, 0))"
proof -
  let ?now = "new_Date 2023 2 1"
  have today: "getTodayDate ?now = ''2023-03-01''"
    by (simp add: getTodayDate_def new_Date_2023_03_01 formatDate_2023_03_01)
  have f: "formatDate (monthly_periodStart (Some 30) ?now) = ''2023-03-02''"
    by (simp add: new_Date_2023_03_01 monthly30_periodStart formatDate_2023_03_02)
  have d: "getDate (monthly_periodStart (Some 30) ?now) = 2"
    by (simp add: new_Date_2023_03_01 monthly30_periodStart getDate_def fields_2023_03_02)
  have lt: "?now < monthly_periodStart (Some 30) ?now"
    by (simp add: new_Date_2023_03_01 monthly30_periodStart)
  have never: "\<not> isTaskCompleted example_monthly30_task cs ?now"
    if nofuture: "\<forall>c\<in>set cs. \<not> string_lt (getTodayDate ?now) (completed_date c)" for cs
  proof
    assume "isTaskCompleted example_monthly30_task cs ?now"
    then obtain c where c: "c \<in> set cs" "string_ge (completed_date c) ''2023-03-02''"
      by (auto simp: isTaskCompleted_iff monthly30_getPeriodStartDate)
    have "string_lt ''2023-03-01'' ''2023-03-02''" by simp
    then have "string_lt ''2023-03-01'' (completed_date c)"
      using c(2) by (rule string_lt_ge_trans)
    with nofuture c(1) today show False by simp
  qed
  have found: "queryOne (filter (\<lambda>t. tid t = 5 \<and> user_id t = ''u1'') (tasks example_monthly30_db))
                 = Some example_monthly30_task"
    by (simp add: example_monthly30_db_def SQL_Database_def example_monthly30_task_def queryOne_def)
  have db': "fst (toggle example_monthly30_db ''u1'' 5 ?now)
           = example_monthly30_db\<lparr>task_completions := [\<lparr>task_id = 5, completed_date = ''2023-03-01''\<rparr>]\<rparr>"
    unfolding toggle_db [OF found] today by (simp add: example_monthly30_db_def SQL_Database_def)
  have "\<forall>c\<in>set (getUserCompletions (fst (toggle example_monthly30_db ''u1'' 5 ?now)) ''u1'' None ?now).
          \<not> string_lt (getTodayDate ?now) (completed_date c)"
    unfolding db' today
    by (auto simp: getUserCompletions_def example_monthly30_db_def SQL_Database_def)
  then have "\<not> isTaskCompleted example_monthly30_task
               (getUserCompletions (fst (toggle example_monthly30_db ''u1'' 5 ?now)) ''u1'' None ?now) ?now"
    by (rule never)
  then have resp: "snd (toggle example_monthly30_db ''u1'' 5 ?now) = Inr (example_monthly30_task, 0)"
    by (simp add: toggle_response [OF found])
  have tg: "toggle example_monthly30_db ''u1'' 5 ?now
       = (example_monthly30_db\<lparr>task_completions := [\<lparr>task_id = 5, completed_date = ''2023-03-01''\<rparr>]\<rparr>,
          Inr (example_monthly30_task, 0))"
    using db' resp by (simp add: prod_eq_iff)
  have h2: "frequency example_monthly30_task = ''monthly''"
    and h3: "reset_day example_monthly30_task = Some 30"
    by (simp_all add: example_monthly30_task_def)
  have pf: "getPeriodStartDate example_monthly30_task ?now
              = formatDate (monthly_periodStart (Some 30) ?now)"
    by (simp add: monthly30_getPeriodStartDate f)
  have never': "\<forall>cs. (\<forall>c\<in>set cs. \<not> string_lt (getTodayDate ?now) (completed_date c))
            \<longrightarrow> \<not> isTaskCompleted example_monthly30_task cs ?now"
    using never by blast
  from on_clock_2023_03_01 h2 h3 today pf monthly30_getPeriodStartDate d lt never' tg
  show ?thesis by blast
qed

theorem monthly_reset_day_30_starts_after_today_witness:
  "\<not> string_lt (getTodayDate (new_Date 2023 2 1)) ''2023-03-01''
   \<and> \<not> isTaskCompleted example_monthly30_task [\<lparr>task_id = 5, completed_date = ''2023-03-01''\<rparr>]
         (new_Date 2023 2 1)"
proof -
  have today: "getTodayDate (new_Date 2023 2 1) = ''2023-03-01''"
    using monthly_reset_day_30_starts_after_today by blast
  have n: "\<not> string_lt (getTodayDate (new_Date 2023 2 1)) ''2023-03-01''"
    unfolding today by simp
  then have h: "\<forall>c\<in>set [\<lparr>task_id = 5, completed_date = ''2023-03-01''\<rparr>].
       \<not> string_lt (getTodayDate (new_Date 2023 2 1)) (completed_date c)"
    by simp
  from monthly_reset_day_30_starts_after_today h n show ?thesis by blast
qed

end
